theory Spec2Isabelle
  imports Complex_Main "HOL-Library.Word"
begin

section \<open>The download service: data model\<close>

text \<open>
  The development embeds \<^verbatim>\<open>DownloadService\<close> (the class of the download service module)
  and the routes of \<^verbatim>\<open>/api/downloads\<close>. A task is the record the service keeps in
  \<^verbatim>\<open>activeTasks\<close>. JavaScript numbers are modelled as \<open>int\<close> where the code counts bytes
  and as \<open>real\<close> for the progress percentage (rounding of floating point is not modelled).
  A field that may be \<^verbatim>\<open>undefined\<close> has an option type.

  The server's declaration of \<^verbatim>\<open>DownloadTask\<close> and \<^verbatim>\<open>DownloadStatus\<close> is not among the
  sources. The record has the fields the service assigns: those of the front end's
  \<^verbatim>\<open>DownloadTask\<close> (without \<^verbatim>\<open>checksum\<close> and \<^verbatim>\<open>chunks\<close>, which the service never
  assigns) together with \<^verbatim>\<open>retryCount\<close> and \<^verbatim>\<open>downloadedSize\<close>; the status has the six
  values the service assigns.
\<close>

datatype DownloadStatus = Pending | Downloading | Paused | Completed | Error | Cancelled

text \<open>
  Errors thrown inside the service. The service only ever stores the message of an error;
  the model keeps the error itself, so messages stay symbolic:
  \<open>UnsupportedSource src\<close> is the error thrown by \<^verbatim>\<open>executeDownload\<close> for a source other
  than \<^verbatim>\<open>dockerhub\<close> and \<^verbatim>\<open>aliyun\<close>, \<open>HttpStatus c\<close> a response with a status outside 2xx
  (the HTTP client rejects those), \<open>NetworkError m\<close> a transport failure, \<open>Canceled\<close> the
  error of a stream whose abort controller was tripped, \<open>TypeError\<close> a method call on
  \<^verbatim>\<open>undefined\<close>.
\<close>

datatype js_error =
    UnsupportedSource string
  | HttpStatus nat
  | NetworkError string
  | Canceled
  | TypeError

type_synonym byte = "8 word"

record DownloadTask =
  id' :: string
  imageName :: string
  tag :: string
  source :: string
  status :: DownloadStatus
  progress :: real
  speed :: real
  totalBytes :: int
  downloadedBytes :: int
  targetPath :: string
  createdAt :: nat
  updatedAt :: nat
  error :: "js_error option"
  retryCount :: "nat option"
  downloadedSize :: "int option"

text \<open>
  The events of the \<^verbatim>\<open>EventEmitter\<close>. A listener receives the task object and reads it
  synchronously (the listeners of the server read \<^verbatim>\<open>task.progress\<close> and broadcast it at
  once), so an event carries the task as it is when the event is emitted.
\<close>

datatype event =
    TaskCreated DownloadTask
  | TaskUpdated DownloadTask
  | DownloadComplete DownloadTask
  | DownloadError DownloadTask
  | DownloadProgress DownloadTask
  | TaskPaused DownloadTask
  | TaskCancelled DownloadTask

subsection \<open>Registry documents\<close>

record platform =
  architecture :: "string option"
  os :: "string option"

text \<open>
  A descriptor is an entry of \<^verbatim>\<open>manifests\<close> (of a manifest list), of \<^verbatim>\<open>layers\<close>, or the
  \<^verbatim>\<open>config\<close> of a manifest.
\<close>

record descriptor =
  digest :: "string option"
  size' :: "int option"
  platform :: "platform option"

record manifest_doc =
  manifests :: "descriptor list option"
  config :: "descriptor option"
  layers :: "descriptor list option"

datatype file_content =
    Bytes "byte list"
  | ManifestJson manifest_doc
  | ConfigJson string

subsection \<open>The service state\<close>

text \<open>
  \<open>taskControllers\<close> holds the task ids that have an \<^verbatim>\<open>AbortController\<close> registered;
  \<open>events\<close> is the log of emitted events, oldest first; \<open>files\<close> is the part of the disk
  the service writes; \<open>now\<close> is the clock that \<^verbatim>\<open>new Date()\<close> and \<^verbatim>\<open>Date.now()\<close> read.
  The file system is taken to succeed.
\<close>

record Service =
  activeTasks :: "string \<rightharpoonup> DownloadTask"
  taskControllers :: "string set"
  events :: "event list"
  files :: "string \<rightharpoonup> file_content"
  now :: nat
  downloadsRoot :: string

definition retryAttempts :: nat where
  "retryAttempts = 3"

definition retryDelay :: nat where
  "retryDelay = 5000"

definition emit :: "event \<Rightarrow> Service \<Rightarrow> Service" where
  "emit e s = s\<lparr>events := events s @ [e]\<rparr>"

definition getTask :: "string \<Rightarrow> Service \<Rightarrow> DownloadTask option" where
  "getTask taskId s = activeTasks s taskId"

text \<open>
  \<^verbatim>\<open>updateTaskStatus(taskId, status, additionalData?)\<close>. The only additional data the
  service ever passes is \<^verbatim>\<open>{ error: message }\<close>, so it is an optional error here.
\<close>

definition updateTaskStatus :: "string \<Rightarrow> DownloadStatus \<Rightarrow> js_error option \<Rightarrow> Service \<Rightarrow> Service" where
  "updateTaskStatus taskId st additionalData s =
     (case activeTasks s taskId of
        None \<Rightarrow> s
      | Some task \<Rightarrow>
          let task1 = task\<lparr>status := st, updatedAt := now s\<rparr>;
              task2 = (case additionalData of
                         None \<Rightarrow> task1
                       | Some e \<Rightarrow> task1\<lparr>error := Some e\<rparr>);
              s1 = emit (TaskUpdated task2) (s\<lparr>activeTasks := (activeTasks s)(taskId \<mapsto> task2)\<rparr>)
          in (case st of
                Completed \<Rightarrow> emit (DownloadComplete task2) s1
              | Error \<Rightarrow> emit (DownloadError task2) s1
              | _ \<Rightarrow> s1))"

text \<open>
  \<^verbatim>\<open>updateTaskProgress(taskId, progress, downloadedSize, speed)\<close>: the progress is clamped
  by \<^verbatim>\<open>Math.min(progress, 100)\<close>.
\<close>

definition updateTaskProgress :: "string \<Rightarrow> real \<Rightarrow> int \<Rightarrow> real \<Rightarrow> Service \<Rightarrow> Service" where
  "updateTaskProgress taskId p dsize sp s =
     (case activeTasks s taskId of
        None \<Rightarrow> s
      | Some task \<Rightarrow>
          let task1 = task\<lparr>progress := min p 100, downloadedSize := Some dsize,
                           speed := sp, updatedAt := now s\<rparr>
          in emit (DownloadProgress task1) (s\<lparr>activeTasks := (activeTasks s)(taskId \<mapsto> task1)\<rparr>))"

text \<open>\<^verbatim>\<open>delay(ms)\<close>: the only place where the model lets time pass.\<close>

definition delay :: "nat \<Rightarrow> Service \<Rightarrow> Service" where
  "delay ms s = s\<lparr>now := now s + ms\<rparr>"

subsection \<open>Control verbs of the service\<close>

definition pauseDownload :: "string \<Rightarrow> Service \<Rightarrow> Service" where
  "pauseDownload taskId s =
     (let s1 = (if taskId \<in> taskControllers s
                then s\<lparr>taskControllers := taskControllers s - {taskId}\<rparr>
                else s)
      in case activeTasks s1 taskId of
           None \<Rightarrow> s1
         | Some task \<Rightarrow>
             if status task = Downloading
             then let task1 = task\<lparr>status := Paused, updatedAt := now s1\<rparr>
                  in emit (TaskPaused task1) (s1\<lparr>activeTasks := (activeTasks s1)(taskId \<mapsto> task1)\<rparr>)
             else s1)"


text \<open>
  \<^verbatim>\<open>cleanupCompletedTasks()\<close> deletes every task whose status is \<^verbatim>\<open>completed\<close> or
  \<^verbatim>\<open>cancelled\<close>.
\<close>

definition cleanupCompletedTasks :: "Service \<Rightarrow> Service" where
  "cleanupCompletedTasks s =
     s\<lparr>activeTasks := (\<lambda>taskId.
          case activeTasks s taskId of
            None \<Rightarrow> None
          | Some task \<Rightarrow>
              if status task = Completed \<or> status task = Cancelled then None else Some task)\<rparr>"

section \<open>The registry as the service sees it\<close>

text \<open>
  One attempt of \<^verbatim>\<open>executeDownload\<close> talks to the token service and to one registry host.
  A \<open>registry\<close> holds the answers of that host during one attempt: every HTTP call
  either throws (\<open>Inl\<close>) or yields the data the code reads from the response (\<open>Inr\<close>).
  Requests are keyed by what the code puts into the URL: the repository path and the
  reference or digest; the manifest request also by the \<^verbatim>\<open>Accept\<close> header it sends.
\<close>

datatype accept = AcceptList | AcceptV2

text \<open>
  A streamed blob body is the sequence of what happens while the promise of
  \<^verbatim>\<open>downloadDockerBlob\<close> is pending: \<open>Data chunk\<close> is a \<^verbatim>\<open>data\<close> event of the response;
  \<open>PauseRequest\<close> is a client calling \<^verbatim>\<open>pauseDownload\<close> for the task between two events
  of the stream (the service runs on one thread, so the call runs as a whole there).
  The stream then ends: \<open>Finish\<close> (the writer finished) or \<open>StreamError e\<close>.
\<close>

datatype stream_event = Data "byte list" | PauseRequest

datatype stream_end = Finish | StreamError js_error

type_synonym blob_stream = "stream_event list \<times> stream_end"

record registry =
  token :: "string \<Rightarrow> js_error + string"
  manifest_at :: "accept \<Rightarrow> string \<Rightarrow> string \<Rightarrow> js_error + manifest_doc"
  config_at :: "string \<Rightarrow> string \<Rightarrow> js_error + string"
  blob_at :: "string \<Rightarrow> string \<Rightarrow> js_error + blob_stream"

record manifestInfo =
  manifest :: manifest_doc
  configData :: string
  layerList :: "descriptor list"

definition normalizeDockerRepo :: "string \<Rightarrow> string" where
  "normalizeDockerRepo name = (if CHR ''/'' \<in> set name then name else ''library/'' @ name)"

text \<open>\<^verbatim>\<open>getDockerToken(repoPath)\<close>: the token of the response, or the empty string.\<close>

definition getDockerToken :: "registry \<Rightarrow> string \<Rightarrow> js_error + string" where
  "getDockerToken reg repoPath = token reg repoPath"

text \<open>
  The choice among the entries of a manifest list, as both \<^verbatim>\<open>getDockerManifestInfo\<close> and
  \<^verbatim>\<open>getGenericManifestInfo\<close> write it:
  \<^verbatim>\<open>manifests.find(x => x.platform?.architecture === 'amd64') || manifests[0]\<close>.
\<close>

definition isAmd64 :: "descriptor \<Rightarrow> bool" where
  "isAmd64 x = (case platform x of None \<Rightarrow> False | Some p \<Rightarrow> architecture p = Some ''amd64'')"

definition pickManifest :: "descriptor list \<Rightarrow> descriptor option" where
  "pickManifest ms =
     (case find isAmd64 ms of
        Some m \<Rightarrow> Some m
      | None \<Rightarrow> (case ms of [] \<Rightarrow> None | m # _ \<Rightarrow> Some m))"

text \<open>\<^verbatim>\<open>a || b\<close> on an optional string: the empty string and \<^verbatim>\<open>undefined\<close> are falsy.\<close>

definition orElse :: "string option \<Rightarrow> string \<Rightarrow> string" where
  "orElse a b = (case a of None \<Rightarrow> b | Some x \<Rightarrow> if x = [] then b else x)"

definition selectedDigest :: "manifest_doc \<Rightarrow> string option" where
  "selectedDigest listDoc =
     (case manifests listDoc of
        None \<Rightarrow> None
      | Some ms \<Rightarrow> (case pickManifest ms of None \<Rightarrow> None | Some m \<Rightarrow> digest m))"

definition getDockerManifestInfo :: "registry \<Rightarrow> string \<Rightarrow> string \<Rightarrow> string \<Rightarrow> js_error + manifestInfo" where
  "getDockerManifestInfo reg repoPath tg tok =
     (case manifest_at reg AcceptList repoPath tg of
        Inl e \<Rightarrow> Inl e
      | Inr listDoc \<Rightarrow>
          (case manifest_at reg AcceptV2 repoPath (orElse (selectedDigest listDoc) tg) of
             Inl e \<Rightarrow> Inl e
           | Inr doc \<Rightarrow>
               let configDigest = orElse (case config doc of None \<Rightarrow> None | Some c \<Rightarrow> digest c) []
               in (case (if configDigest \<noteq> [] then config_at reg repoPath configDigest else Inr ''{}'') of
                     Inl e \<Rightarrow> Inl e
                   | Inr cfg \<Rightarrow>
                       Inr \<lparr>manifest = doc, configData = cfg,
                            layerList = (case layers doc of None \<Rightarrow> [] | Some ls \<Rightarrow> ls)\<rparr>)))"

text \<open>
  \<^verbatim>\<open>getGenericManifestInfo(host, repoPath, tag, basicAuth)\<close> has the control flow of
  \<^verbatim>\<open>getDockerManifestInfo\<close> line by line; it differs in the host and in the
  authorisation header, which the registry's answers stand for.
\<close>

definition getGenericManifestInfo :: "registry \<Rightarrow> string \<Rightarrow> string \<Rightarrow> js_error + manifestInfo" where
  "getGenericManifestInfo reg repoPath tg =
     (case manifest_at reg AcceptList repoPath tg of
        Inl e \<Rightarrow> Inl e
      | Inr listDoc \<Rightarrow>
          (case manifest_at reg AcceptV2 repoPath (orElse (selectedDigest listDoc) tg) of
             Inl e \<Rightarrow> Inl e
           | Inr doc \<Rightarrow>
               let configDigest = orElse (case config doc of None \<Rightarrow> None | Some c \<Rightarrow> digest c) []
               in (case (if configDigest \<noteq> [] then config_at reg repoPath configDigest else Inr ''{}'') of
                     Inl e \<Rightarrow> Inl e
                   | Inr cfg \<Rightarrow>
                       Inr \<lparr>manifest = doc, configData = cfg,
                            layerList = (case layers doc of None \<Rightarrow> [] | Some ls \<Rightarrow> ls)\<rparr>)))"

section \<open>Downloading one blob\<close>

text \<open>A mutation through the reference the code holds on a stored task.\<close>

definition modifyTask :: "string \<Rightarrow> (DownloadTask \<Rightarrow> DownloadTask) \<Rightarrow> Service \<Rightarrow> Service" where
  "modifyTask taskId f s =
     (case activeTasks s taskId of
        None \<Rightarrow> s
      | Some task \<Rightarrow> s\<lparr>activeTasks := (activeTasks s)(taskId \<mapsto> f task)\<rparr>)"

definition appendFile :: "string \<Rightarrow> byte list \<Rightarrow> Service \<Rightarrow> Service" where
  "appendFile outPath chunk s =
     s\<lparr>files := (files s)(outPath \<mapsto>
          (case files s outPath of
             Some (Bytes b) \<Rightarrow> Bytes (b @ chunk)
           | _ \<Rightarrow> Bytes chunk))\<rparr>"

text \<open>
  The \<^verbatim>\<open>data\<close> handler of \<^verbatim>\<open>downloadDockerBlob\<close>:
  \<^verbatim>\<open>total = task.totalBytes || (expectedSize || 0)\<close>,
  \<^verbatim>\<open>newDownloaded = (task.downloadedBytes || 0) + chunk.length\<close>, then
  \<^verbatim>\<open>updateTaskProgress(taskId, total ? (newDownloaded / total) * 100 : task.progress, newDownloaded, 0)\<close>.
\<close>

definition onData :: "string \<Rightarrow> int \<Rightarrow> byte list \<Rightarrow> Service \<Rightarrow> Service" where
  "onData taskId expectedSize chunk s =
     (case activeTasks s taskId of
        None \<Rightarrow> s
      | Some task \<Rightarrow>
          let total = (if totalBytes task \<noteq> 0 then totalBytes task else expectedSize);
              newDownloaded = downloadedBytes task + int (length chunk)
          in updateTaskProgress taskId
               (if total \<noteq> 0 then (real_of_int newDownloaded / real_of_int total) * 100
                else progress task)
               newDownloaded 0 s)"

text \<open>
  The pending promise of a blob download. The result is the error the promise rejects
  with (if any), the local counter \<^verbatim>\<open>downloaded\<close>, and the state. A \<open>PauseRequest\<close> runs
  \<^verbatim>\<open>pauseDownload\<close>; when that finds the controller of this stream it aborts it, and the
  aborted stream emits its error, which rejects the promise.
\<close>

fun consumeStream :: "string \<Rightarrow> string \<Rightarrow> int \<Rightarrow> stream_end \<Rightarrow> stream_event list \<Rightarrow> int \<Rightarrow> Service
    \<Rightarrow> js_error option \<times> int \<times> Service" where
  "consumeStream taskId outPath expectedSize fin [] downloaded s =
     (case fin of
        Finish \<Rightarrow> (None, downloaded, s)
      | StreamError e \<Rightarrow> (Some e, downloaded, s))"
| "consumeStream taskId outPath expectedSize fin (Data chunk # evs) downloaded s =
     consumeStream taskId outPath expectedSize fin evs (downloaded + int (length chunk))
       (appendFile outPath chunk (onData taskId expectedSize chunk s))"
| "consumeStream taskId outPath expectedSize fin (PauseRequest # evs) downloaded s =
     (if taskId \<in> taskControllers s
      then (Some Canceled, downloaded, pauseDownload taskId s)
      else consumeStream taskId outPath expectedSize fin evs downloaded (pauseDownload taskId s))"

definition downloadDockerBlob :: "registry \<Rightarrow> string \<Rightarrow> string \<Rightarrow> string \<Rightarrow> string \<Rightarrow> string \<Rightarrow> int
    \<Rightarrow> Service \<Rightarrow> js_error option \<times> Service" where
  "downloadDockerBlob reg taskId repoPath dg tok outPath expectedSize s =
     (let s1 = s\<lparr>taskControllers := insert taskId (taskControllers s)\<rparr>
      in case blob_at reg repoPath dg of
           Inl e \<Rightarrow> (Some e, s1)
         | Inr (evs, fin) \<Rightarrow>
             (case consumeStream taskId outPath expectedSize fin evs 0
                     (s1\<lparr>files := (files s1)(outPath \<mapsto> Bytes [])\<rparr>) of
                (Some e, downloaded, s2) \<Rightarrow> (Some e, s2)
              | (None, downloaded, s2) \<Rightarrow>
                  (case activeTasks s2 taskId of
                     None \<Rightarrow> (Some TypeError, s2)
                   | Some t \<Rightarrow>
                       (None, s2\<lparr>activeTasks := (activeTasks s2)(taskId \<mapsto>
                                      t\<lparr>downloadedBytes := downloadedBytes t + downloaded\<rparr>),
                                  taskControllers := taskControllers s2 - {taskId}\<rparr>))))"

text \<open>
  \<^verbatim>\<open>downloadGenericBlob\<close> is \<^verbatim>\<open>downloadDockerBlob\<close> line by line, with the host and the
  authorisation header of the generic registry.
\<close>

definition downloadGenericBlob :: "registry \<Rightarrow> string \<Rightarrow> string \<Rightarrow> string \<Rightarrow> string \<Rightarrow> int
    \<Rightarrow> Service \<Rightarrow> js_error option \<times> Service" where
  "downloadGenericBlob reg taskId repoPath dg outPath expectedSize s =
     (let s1 = s\<lparr>taskControllers := insert taskId (taskControllers s)\<rparr>
      in case blob_at reg repoPath dg of
           Inl e \<Rightarrow> (Some e, s1)
         | Inr (evs, fin) \<Rightarrow>
             (case consumeStream taskId outPath expectedSize fin evs 0
                     (s1\<lparr>files := (files s1)(outPath \<mapsto> Bytes [])\<rparr>) of
                (Some e, downloaded, s2) \<Rightarrow> (Some e, s2)
              | (None, downloaded, s2) \<Rightarrow>
                  (case activeTasks s2 taskId of
                     None \<Rightarrow> (Some TypeError, s2)
                   | Some t \<Rightarrow>
                       (None, s2\<lparr>activeTasks := (activeTasks s2)(taskId \<mapsto>
                                      t\<lparr>downloadedBytes := downloadedBytes t + downloaded\<rparr>),
                                  taskControllers := taskControllers s2 - {taskId}\<rparr>))))"

section \<open>One run of the download\<close>

text \<open>
  \<^verbatim>\<open>path.join(a, b)\<close> on the paths the service builds (normalisation of dots and of
  repeated separators is not modelled), and the file name of a blob:
  \<^verbatim>\<open>digest.replace(/[:/]/g, '_')\<close>.
\<close>

definition path_join :: "string \<Rightarrow> string \<Rightarrow> string" where
  "path_join a b = a @ ''/'' @ b"

definition safe :: "string \<Rightarrow> string" where
  "safe dg = map (\<lambda>c. if c = CHR '':'' \<or> c = CHR ''/'' then CHR ''_'' else c) dg"

text \<open>The first branch of the \<^verbatim>\<open>try\<close> block: which manifest information the task gets.\<close>

definition resolveManifest :: "registry \<Rightarrow> DownloadTask \<Rightarrow> js_error + manifestInfo" where
  "resolveManifest reg task =
     (if source task = ''dockerhub'' then
        (let repo = normalizeDockerRepo (imageName task)
         in case getDockerToken reg repo of
              Inl e \<Rightarrow> Inl e
            | Inr tok \<Rightarrow> getDockerManifestInfo reg repo (tag task) tok)
      else if source task = ''aliyun'' then
        getGenericManifestInfo reg (imageName task) (tag task)
      else Inl (UnsupportedSource (source task)))"

text \<open>
  \<^verbatim>\<open>manifestInfo.layers.reduce((sum, l) => sum + (l.size || 0), 0)\<close>.
\<close>

definition layerSize :: "descriptor \<Rightarrow> int" where
  "layerSize l = (case size' l of None \<Rightarrow> 0 | Some n \<Rightarrow> n)"

definition sumLayerSizes :: "descriptor list \<Rightarrow> int" where
  "sumLayerSizes ls = foldl (\<lambda>sum l. sum + layerSize l) 0 ls"

text \<open>
  The loop over the layers. \<open>task\<close> is the task as read when the run started: the loop
  reads only its \<^verbatim>\<open>source\<close> and \<^verbatim>\<open>imageName\<close>, which nothing ever assigns.
\<close>

fun downloadLayers :: "registry \<Rightarrow> string \<Rightarrow> DownloadTask \<Rightarrow> string \<Rightarrow> descriptor list \<Rightarrow> Service
    \<Rightarrow> js_error option \<times> Service" where
  "downloadLayers reg taskId task blobsDir [] s = (None, s)"
| "downloadLayers reg taskId task blobsDir (layer # rest) s =
     (case digest layer of
        None \<Rightarrow> (Some TypeError, s)
      | Some dg \<Rightarrow>
          let layerPath = path_join blobsDir (safe dg)
          in if source task = ''dockerhub'' then
               (let repo = normalizeDockerRepo (imageName task)
                in case getDockerToken reg repo of
                     Inl e \<Rightarrow> (Some e, s)
                   | Inr tok \<Rightarrow>
                       (case downloadDockerBlob reg taskId repo dg tok layerPath (layerSize layer) s of
                          (Some e, s1) \<Rightarrow> (Some e, s1)
                        | (None, s1) \<Rightarrow> downloadLayers reg taskId task blobsDir rest s1))
             else if source task = ''aliyun'' then
               (case downloadGenericBlob reg taskId (imageName task) dg layerPath (layerSize layer) s of
                  (Some e, s1) \<Rightarrow> (Some e, s1)
                | (None, s1) \<Rightarrow> downloadLayers reg taskId task blobsDir rest s1)
             else downloadLayers reg taskId task blobsDir rest s)"

text \<open>\<^verbatim>\<open>verifyFile(task)\<close> writes one line to the console and nothing else.\<close>

definition verifyFile :: "DownloadTask \<Rightarrow> Service \<Rightarrow> Service" where
  "verifyFile task s = s"

definition writeFile :: "string \<Rightarrow> file_content \<Rightarrow> Service \<Rightarrow> Service" where
  "writeFile p c s = s\<lparr>files := (files s)(p \<mapsto> c)\<rparr>"

text \<open>
  The \<^verbatim>\<open>try\<close> block of \<^verbatim>\<open>executeDownload\<close>: \<open>Some e\<close> is the error it throws.
\<close>

definition attempt :: "registry \<Rightarrow> string \<Rightarrow> DownloadTask \<Rightarrow> Service \<Rightarrow> js_error option \<times> Service" where
  "attempt reg taskId task s =
     (let s1 = updateTaskStatus taskId Downloading None s
      in case resolveManifest reg task of
           Inl e \<Rightarrow> (Some e, s1)
         | Inr info \<Rightarrow>
             let s2 = modifyTask taskId (\<lambda>t. t\<lparr>totalBytes := sumLayerSizes (layerList info)\<rparr>) s1;
                 blobsDir = path_join (targetPath task) ''blobs''
             in (case downloadLayers reg taskId task blobsDir (layerList info) s2 of
                   (Some e, s3) \<Rightarrow> (Some e, s3)
                 | (None, s3) \<Rightarrow>
                     let s4 = writeFile (path_join (targetPath task) ''manifest.json'')
                                (ManifestJson (manifest info)) s3;
                         s5 = writeFile (path_join (targetPath task) ''config.json'')
                                (ConfigJson (configData info)) s4;
                         s6 = verifyFile task s5
                     in (None, updateTaskStatus taskId Completed None s6)))"

subsection \<open>Readings of the stored tasks\<close>

text \<open>
  \<open>taskField f s\<close> reads \<open>f\<close> of every stored task. A reading \<open>f\<close> is \<open>stable\<close> when it
  does not depend on the fields that the status and progress updates and the blob
  download assign.
\<close>

definition taskField :: "(DownloadTask \<Rightarrow> 'a) \<Rightarrow> Service \<Rightarrow> string \<Rightarrow> 'a option" where
  "taskField f s = (\<lambda>taskId. map_option f (activeTasks s taskId))"

definition stable :: "(DownloadTask \<Rightarrow> 'a) \<Rightarrow> bool" where
  "stable f =
     (\<forall>t st p sp d u e ds.
        f (t\<lparr>status := st\<rparr>) = f t \<and> f (t\<lparr>progress := p\<rparr>) = f t \<and> f (t\<lparr>speed := sp\<rparr>) = f t \<and>
        f (t\<lparr>downloadedBytes := d\<rparr>) = f t \<and> f (t\<lparr>updatedAt := u\<rparr>) = f t \<and>
        f (t\<lparr>error := e\<rparr>) = f t \<and> f (t\<lparr>downloadedSize := ds\<rparr>) = f t)"

section \<open>Runs with retries\<close>

text \<open>\<^verbatim>\<open>(task as any).retryCount || 0\<close>, read from the stored task.\<close>

definition retryCountOf :: "Service \<Rightarrow> string \<Rightarrow> nat" where
  "retryCountOf s taskId =
     (case activeTasks s taskId of
        None \<Rightarrow> 0
      | Some t \<Rightarrow> (case retryCount t of None \<Rightarrow> 0 | Some c \<Rightarrow> c))"

text \<open>
  \<^verbatim>\<open>executeDownload(taskId)\<close>. The registry may answer differently at each attempt:
  \<open>w n\<close> is the registry as attempt number \<open>n\<close> finds it. The \<^verbatim>\<open>catch\<close> block records
  the error, and while \<^verbatim>\<open>(task.retryCount || 0) < retryAttempts\<close> it increments the
  counter, waits and calls \<^verbatim>\<open>executeDownload\<close> again.
\<close>

function executeDownload :: "(nat \<Rightarrow> registry) \<Rightarrow> nat \<Rightarrow> string \<Rightarrow> Service \<Rightarrow> Service" where
  "executeDownload w n taskId s =
     (case activeTasks s taskId of
        None \<Rightarrow> s
      | Some task \<Rightarrow>
          (case attempt (w n) taskId task s of
             (None, s1) \<Rightarrow> s1
           | (Some e, s1) \<Rightarrow>
               let s2 = updateTaskStatus taskId Error (Some e) s1;
                   rc = retryCountOf s2 taskId
               in if rc < retryAttempts
                  then executeDownload w (Suc n) taskId
                         (delay retryDelay
                            (modifyTask taskId (\<lambda>t. t\<lparr>retryCount := Some (rc + 1)\<rparr>) s2))
                  else s2))"
  by pat_completeness auto

section \<open>Starting, resuming and retrying a task\<close>

text \<open>The decimal digits of a number, as \<^verbatim>\<open>toString()\<close> writes them.\<close>

definition digitChar :: "nat \<Rightarrow> char" where
  "digitChar d = ''0123456789'' ! d"

function toString :: "nat \<Rightarrow> string" where
  "toString n = (if n < 10 then [digitChar n] else toString (n div 10) @ [digitChar (n mod 10)])"
  by pat_completeness auto

text \<open>
  \<^verbatim>\<open>startDownload(imageName, tag, source, targetPath?)\<close>: the id is
  \<^verbatim>\<open>Date.now().toString()\<close>. The service starts \<^verbatim>\<open>executeDownload\<close> without awaiting
  it, here and in \<^verbatim>\<open>resumeDownload\<close> and \<^verbatim>\<open>retryDownload\<close>. The model lets that run
  finish inside the call that started it: it describes the state the started run leaves,
  not the instant at which the caller gets its answer.
\<close>

definition startDownload :: "(nat \<Rightarrow> registry) \<Rightarrow> nat \<Rightarrow> string \<Rightarrow> string \<Rightarrow> string \<Rightarrow> string option
    \<Rightarrow> Service \<Rightarrow> string \<times> Service" where
  "startDownload w n name tg src target s =
     (let taskId = toString (now s);
          taskDir = path_join (path_join (downloadsRoot s) ''tasks'') taskId;
          task = \<lparr>id' = taskId, imageName = name, tag = tg, source = src, status = Pending,
                  progress = 0, speed = 0, totalBytes = 0, downloadedBytes = 0,
                  targetPath = orElse target taskDir, createdAt = now s, updatedAt = now s,
                  error = None, retryCount = None, downloadedSize = None\<rparr>;
          s1 = emit (TaskCreated task) (s\<lparr>activeTasks := (activeTasks s)(taskId \<mapsto> task)\<rparr>)
      in (taskId, executeDownload w n taskId s1))"

definition resumeDownload :: "(nat \<Rightarrow> registry) \<Rightarrow> nat \<Rightarrow> string \<Rightarrow> Service \<Rightarrow> Service" where
  "resumeDownload w n taskId s =
     (case activeTasks s taskId of
        None \<Rightarrow> s
      | Some task \<Rightarrow> if status task \<noteq> Paused then s else executeDownload w n taskId s)"

text \<open>
  \<^verbatim>\<open>retryDownload(taskId)\<close> first assigns five fields of the task (\<open>retryReset\<close>) and an
  update time, then starts \<^verbatim>\<open>executeDownload\<close>.
\<close>

definition retryReset :: "nat \<Rightarrow> DownloadTask \<Rightarrow> DownloadTask" where
  "retryReset time task =
     task\<lparr>status := Pending, progress := 0, speed := 0, downloadedSize := Some 0,
          retryCount := Some 0, updatedAt := time\<rparr>"

definition retryDownload :: "(nat \<Rightarrow> registry) \<Rightarrow> nat \<Rightarrow> string \<Rightarrow> Service \<Rightarrow> Service" where
  "retryDownload w n taskId s =
     (case activeTasks s taskId of
        None \<Rightarrow> s
      | Some task \<Rightarrow> executeDownload w n taskId (modifyTask taskId (retryReset (now s)) s))"

section \<open>The routes of /api/downloads\<close>

text \<open>
  A response is its status code with what the body carries. The body of the create route
  is the task object itself, which is serialised after the run has started; the model
  keeps its id.
\<close>

datatype payload =
    TaskRef string
  | TaskRecord "DownloadTask option"
  | Message string

type_synonym response = "nat \<times> payload"

text \<open>\<^verbatim>\<open>POST /api/downloads\<close>: the three required fields must be truthy.\<close>

definition postDownload :: "(nat \<Rightarrow> registry) \<Rightarrow> nat \<Rightarrow> string option \<Rightarrow> string option \<Rightarrow> string option
    \<Rightarrow> string option \<Rightarrow> Service \<Rightarrow> response \<times> Service" where
  "postDownload w n name tg src target s =
     (if orElse name [] = [] \<or> orElse tg [] = [] \<or> orElse src [] = []
      then ((400, Message ''Missing required fields: imageName, tag, source''), s)
      else (case startDownload w n (orElse name []) (orElse tg []) (orElse src []) target s of
              (taskId, s1) \<Rightarrow> ((200, TaskRef taskId), s1)))"




text \<open>
  \<^verbatim>\<open>DELETE /api/downloads/:taskId\<close>: after the two guards the handler calls
  \<^verbatim>\<open>cleanupCompletedTasks()\<close> and answers that the task was deleted.
\<close>

definition deleteDownload :: "string \<Rightarrow> Service \<Rightarrow> response \<times> Service" where
  "deleteDownload taskId s =
     (case getTask taskId s of
        None \<Rightarrow> ((404, Message ''Download task not found''), s)
      | Some task \<Rightarrow>
          if status task = Downloading
          then ((400, Message ''Cannot delete downloading task''), s)
          else ((200, Message ''Download task deleted successfully''), cleanupCompletedTasks s))"

section \<open>What the specification asks of the platform choice\<close>

text \<open>
  The specification's \<^verbatim>\<open>select_platform\<close>, written from its words: for a manifest list,
  the entry matching the requested platform, with the tie-break order exact match (os and
  architecture), then same architecture on any OS, then the first entry.
\<close>

definition spec_select_platform :: "string \<Rightarrow> string \<Rightarrow> descriptor list \<Rightarrow> descriptor option" where
  "spec_select_platform reqOs reqArch ms =
     (case find (\<lambda>x. case platform x of
                        None \<Rightarrow> False
                      | Some p \<Rightarrow> os p = Some reqOs \<and> architecture p = Some reqArch) ms of
        Some m \<Rightarrow> Some m
      | None \<Rightarrow>
          (case find (\<lambda>x. case platform x of
                             None \<Rightarrow> False
                           | Some p \<Rightarrow> architecture p = Some reqArch) ms of
             Some m \<Rightarrow> Some m
           | None \<Rightarrow> (case ms of [] \<Rightarrow> None | m # _ \<Rightarrow> Some m)))"

section \<open>Concrete tasks, states and registries\<close>

text \<open>The inputs at which the theorems below are instantiated.\<close>

definition exampleTask :: "string \<Rightarrow> string \<Rightarrow> DownloadStatus \<Rightarrow> DownloadTask" where
  "exampleTask taskId src st =
     \<lparr>id' = taskId, imageName = ''nginx'', tag = ''latest'', source = src, status = st,
      progress = 0, speed = 0, totalBytes = 0, downloadedBytes = 0,
      targetPath = ''downloads/tasks/'' @ taskId, createdAt = 0, updatedAt = 0,
      error = None, retryCount = None, downloadedSize = None\<rparr>"

definition exampleService :: "(string \<times> DownloadTask) list \<Rightarrow> Service" where
  "exampleService ts =
     \<lparr>activeTasks = map_of ts, taskControllers = {}, events = [], files = Map.empty,
      now = 1000, downloadsRoot = ''downloads''\<rparr>"

definition examplePlatform :: "string \<Rightarrow> string \<Rightarrow> platform" where
  "examplePlatform o' a = \<lparr>architecture = Some a, os = Some o'\<rparr>"

text \<open>A manifest list whose first entry is windows/amd64 and whose second is linux/amd64.\<close>

definition exampleList :: "descriptor list" where
  "exampleList =
     [\<lparr>digest = Some ''sha256:win'', size' = Some 10, platform = Some (examplePlatform ''windows'' ''amd64'')\<rparr>,
      \<lparr>digest = Some ''sha256:lin'', size' = Some 10, platform = Some (examplePlatform ''linux'' ''amd64'')\<rparr>]"

text \<open>A manifest with a config blob of 5 bytes and two layers of 2 bytes each.\<close>

definition exampleManifest :: manifest_doc where
  "exampleManifest =
     \<lparr>manifests = None,
      config = Some \<lparr>digest = Some ''sha256:cc'', size' = Some 5, platform = None\<rparr>,
      layers = Some [\<lparr>digest = Some ''sha256:aa'', size' = Some 2, platform = None\<rparr>,
                     \<lparr>digest = Some ''sha256:bb'', size' = Some 2, platform = None\<rparr>]\<rparr>"

text \<open>
  A registry that answers every request: the manifest above, and for every blob the same
  two bytes.
\<close>

definition exampleRegistry :: registry where
  "exampleRegistry =
     \<lparr>token = (\<lambda>repo. Inr ''t''),
      manifest_at = (\<lambda>acc repo ref. Inr exampleManifest),
      config_at = (\<lambda>repo dg. Inr ''{}''),
      blob_at = (\<lambda>repo dg. Inr ([Data [1, 2]], Finish))\<rparr>"

section \<open>What the specification asks of the total size\<close>

text \<open>
  The specification's total, written from its words: the size of the config blob plus
  the sum of the sizes of the layers of the selected manifest.
\<close>

definition spec_total_bytes :: "manifest_doc \<Rightarrow> int" where
  "spec_total_bytes doc =
     (case config doc of None \<Rightarrow> 0 | Some c \<Rightarrow> layerSize c)
     + sum_list (map layerSize (case layers doc of None \<Rightarrow> [] | Some ls \<Rightarrow> ls))"

section \<open>Elementary updates of the state\<close>

text \<open>
  \<open>evolves s s'\<close>: \<open>s'\<close> comes from \<open>s\<close> by the elementary updates a download performs.
  Every run of \<^verbatim>\<open>executeDownload\<close> is such a sequence, so a property kept by each
  elementary update is kept by every run.
\<close>

inductive evolves :: "Service \<Rightarrow> Service \<Rightarrow> bool" where
  same: "evolves s s"
| status: "evolves s s1 \<Longrightarrow> evolves s (updateTaskStatus taskId st a s1)"
| progressed: "evolves s s1 \<Longrightarrow> evolves s (updateTaskProgress taskId p d sp s1)"
| paused: "evolves s s1 \<Longrightarrow> evolves s (pauseDownload taskId s1)"
| disk: "evolves s s1 \<Longrightarrow> evolves s (s1\<lparr>files := f\<rparr>)"
| controllers: "evolves s s1 \<Longrightarrow> evolves s (s1\<lparr>taskControllers := c\<rparr>)"
| counted: "evolves s s1 \<Longrightarrow> activeTasks s1 taskId = Some t
            \<Longrightarrow> evolves s (s1\<lparr>activeTasks := (activeTasks s1)(taskId \<mapsto> t\<lparr>downloadedBytes := b\<rparr>)\<rparr>)"
| sized: "evolves s s1 \<Longrightarrow> evolves s (modifyTask taskId (\<lambda>t. t\<lparr>totalBytes := m\<rparr>) s1)"
| retried: "evolves s s1 \<Longrightarrow> evolves s (modifyTask taskId (\<lambda>t. t\<lparr>retryCount := k\<rparr>) s1)"
| waited: "evolves s s1 \<Longrightarrow> evolves s (delay ms s1)"

text \<open>Whether the stored task carries an error.\<close>

definition hasError :: "Service \<Rightarrow> string \<Rightarrow> bool" where
  "hasError s taskId = (case activeTasks s taskId of None \<Rightarrow> False | Some t \<Rightarrow> error t \<noteq> None)"

section \<open>Progress values of events and tasks\<close>

text \<open>
  The progress values carried by the \<^verbatim>\<open>downloadProgress\<close> events emitted so far, and the
  bound on them: they and the progress recorded in every stored task are at most 100.
\<close>

fun progressOf :: "event \<Rightarrow> real option" where
  "progressOf (DownloadProgress t) = Some (progress t)"
| "progressOf (TaskCreated t) = None"
| "progressOf (TaskUpdated t) = None"
| "progressOf (DownloadComplete t) = None"
| "progressOf (DownloadError t) = None"
| "progressOf (TaskPaused t) = None"
| "progressOf (TaskCancelled t) = None"

definition emittedProgress :: "Service \<Rightarrow> real list" where
  "emittedProgress s = List.map_filter progressOf (events s)"

definition progressBounded :: "Service \<Rightarrow> bool" where
  "progressBounded s =
     ((\<forall>p\<in>set (emittedProgress s). p \<le> 100)
      \<and> (\<forall>taskId t. activeTasks s taskId = Some t \<longrightarrow> progress t \<le> 100))"

section \<open>Error events and a registry without the manifest\<close>

text \<open>The number of \<^verbatim>\<open>downloadError\<close> events emitted so far.\<close>

fun isDownloadError :: "event \<Rightarrow> bool" where
  "isDownloadError (DownloadError t) = True"
| "isDownloadError (TaskCreated t) = False"
| "isDownloadError (TaskUpdated t) = False"
| "isDownloadError (DownloadComplete t) = False"
| "isDownloadError (DownloadProgress t) = False"
| "isDownloadError (TaskPaused t) = False"
| "isDownloadError (TaskCancelled t) = False"

definition errorEvents :: "Service \<Rightarrow> nat" where
  "errorEvents s = length (filter isDownloadError (events s))"

text \<open>A registry that answers 404 to every manifest request.\<close>

definition notFoundRegistry :: registry where
  "notFoundRegistry = exampleRegistry\<lparr>manifest_at := (\<lambda>acc repo ref. Inl (HttpStatus 404))\<rparr>"

section \<open>Registries that serve every blob\<close>

text \<open>
  The repository path the blob requests of a task use, and a registry whose blob streams
  for the given layers all end cleanly, whatever bytes they carry.
\<close>

definition repoOf :: "DownloadTask \<Rightarrow> string" where
  "repoOf task =
     (if source task = ''dockerhub'' then normalizeDockerRepo (imageName task) else imageName task)"

definition servesCleanly :: "registry \<Rightarrow> DownloadTask \<Rightarrow> descriptor list \<Rightarrow> bool" where
  "servesCleanly reg task ls =
     ((source task = ''dockerhub'' \<longrightarrow> (\<exists>tok. token reg (repoOf task) = Inr tok))
      \<and> (\<forall>l\<in>set ls. \<exists>dg chunks. digest l = Some dg
                          \<and> blob_at reg (repoOf task) dg = Inr (map Data chunks, Finish)))"

section \<open>A pause during a stream\<close>

text \<open>The name under which the service emits an event, and the task the event carries.\<close>

fun eventName :: "event \<Rightarrow> string" where
  "eventName (TaskCreated t) = ''taskCreated''"
| "eventName (TaskUpdated t) = ''taskUpdated''"
| "eventName (DownloadComplete t) = ''downloadComplete''"
| "eventName (DownloadError t) = ''downloadError''"
| "eventName (DownloadProgress t) = ''downloadProgress''"
| "eventName (TaskPaused t) = ''taskPaused''"
| "eventName (TaskCancelled t) = ''taskCancelled''"

fun eventTask :: "event \<Rightarrow> DownloadTask" where
  "eventTask (TaskCreated t) = t"
| "eventTask (TaskUpdated t) = t"
| "eventTask (DownloadComplete t) = t"
| "eventTask (DownloadError t) = t"
| "eventTask (DownloadProgress t) = t"
| "eventTask (TaskPaused t) = t"
| "eventTask (TaskCancelled t) = t"

text \<open>
  A world in which, during the first attempt, a client pauses the task after the first
  chunk of a blob has arrived; at later attempts the registry answers as usual. Nobody
  ever calls resume.
\<close>

definition pausedRegistry :: registry where
  "pausedRegistry = exampleRegistry\<lparr>blob_at := (\<lambda>repo dg. Inr ([Data [1], PauseRequest, Data [2]], Finish))\<rparr>"

definition pauseWorld :: "nat \<Rightarrow> registry" where
  "pauseWorld m = (if m = 0 then pausedRegistry else exampleRegistry)"

section \<open>Fields of a task that a download leaves alone\<close>

lemma stable_retryCount: "stable retryCount"
  by (simp add: stable_def)

lemma stable_totalBytes: "stable totalBytes"
  by (simp add: stable_def)

lemma taskField_updateTaskStatus:
  "stable f \<Longrightarrow> taskField f (updateTaskStatus taskId st a s) = taskField f s"
  by (rule ext)
     (auto simp: taskField_def stable_def updateTaskStatus_def emit_def Let_def
           split: option.splits DownloadStatus.splits)

lemma taskField_updateTaskProgress:
  "stable f \<Longrightarrow> taskField f (updateTaskProgress taskId p d sp s) = taskField f s"
  by (rule ext)
     (auto simp: taskField_def stable_def updateTaskProgress_def emit_def Let_def
           split: option.splits)

lemma taskField_pauseDownload:
  "stable f \<Longrightarrow> taskField f (pauseDownload taskId s) = taskField f s"
  by (rule ext)
     (auto simp: taskField_def stable_def pauseDownload_def emit_def Let_def split: option.splits)

lemma taskField_onData:
  "stable f \<Longrightarrow> taskField f (onData taskId expected chunk s) = taskField f s"
  by (simp add: onData_def Let_def taskField_updateTaskProgress split: option.splits)

lemma taskField_appendFile:
  "taskField f (appendFile p chunk s) = taskField f s"
  by (simp add: taskField_def appendFile_def)

lemma taskField_consumeStream:
  "stable f \<Longrightarrow> consumeStream taskId outPath expected fin evs d s = (r, d', s')
   \<Longrightarrow> taskField f s' = taskField f s"
proof (induction taskId outPath expected fin evs d s rule: consumeStream.induct)
  case (1 taskId outPath expectedSize fin downloaded s)
  then show ?case by (auto split: stream_end.splits)
next
  case (2 taskId outPath expectedSize fin chunk evs downloaded s)
  then show ?case by (simp add: taskField_appendFile taskField_onData)
next
  case (3 taskId outPath expectedSize fin evs downloaded s)
  then show ?case by (auto simp: taskField_pauseDownload split: if_splits)
qed

lemma taskField_downloadDockerBlob:
  assumes st: "stable f"
    and run: "downloadDockerBlob reg taskId repo dg tok outPath expected s = (r, s')"
  shows "taskField f s' = taskField f s"
proof (cases "blob_at reg repo dg")
  case (Inl e)
  with run show ?thesis
    by (auto simp: downloadDockerBlob_def Let_def taskField_def)
next
  case (Inr b)
  obtain evs fin where b: "b = (evs, fin)" by (cases b)
  let ?s1 = "s\<lparr>taskControllers := insert taskId (taskControllers s),
               files := (files s)(outPath \<mapsto> Bytes [])\<rparr>"
  obtain r2 d2 s2 where c: "consumeStream taskId outPath expected fin evs 0 ?s1 = (r2, d2, s2)"
    by (cases "consumeStream taskId outPath expected fin evs 0 ?s1") auto
  have "taskField f s2 = taskField f ?s1"
    by (rule taskField_consumeStream [OF st c])
  also have "\<dots> = taskField f s" by (simp add: taskField_def)
  finally have k: "taskField f s2 = taskField f s" .
  have u: "taskField f (s2\<lparr>activeTasks := (activeTasks s2)(taskId \<mapsto>
               t\<lparr>downloadedBytes := downloadedBytes t + d2\<rparr>),
             taskControllers := taskControllers s2 - {taskId}\<rparr>) = taskField f s2"
    if "activeTasks s2 taskId = Some t" for t
    using that st by (auto simp: taskField_def stable_def fun_eq_iff)
  show ?thesis
  proof (cases r2)
    case (Some e)
    with run Inr b c have "s' = s2"
      by (simp add: downloadDockerBlob_def Let_def)
    with k show ?thesis by simp
  next
    case None
    show ?thesis
    proof (cases "activeTasks s2 taskId")
      case n: None
      with run Inr b c None have "s' = s2"
        by (simp add: downloadDockerBlob_def Let_def)
      with k show ?thesis by simp
    next
      case (Some t)
      with run Inr b c None
      have "s' = s2\<lparr>activeTasks := (activeTasks s2)(taskId \<mapsto>
               t\<lparr>downloadedBytes := downloadedBytes t + d2\<rparr>),
             taskControllers := taskControllers s2 - {taskId}\<rparr>"
        by (simp add: downloadDockerBlob_def Let_def)
      with u [OF Some] k show ?thesis by simp
    qed
  qed
qed

lemma downloadGenericBlob_eq:
  "downloadGenericBlob reg taskId repo dg outPath expected s
   = downloadDockerBlob reg taskId repo dg tok outPath expected s"
  by (simp add: downloadGenericBlob_def downloadDockerBlob_def)

lemma taskField_downloadLayers:
  "stable f \<Longrightarrow> downloadLayers reg taskId task blobsDir ls s = (r, s')
   \<Longrightarrow> taskField f s' = taskField f s"
proof (induction ls arbitrary: s)
  case Nil
  then show ?case by simp
next
  case (Cons layer rest)
  note st = \<open>stable f\<close>
  note run = \<open>downloadLayers reg taskId task blobsDir (layer # rest) s = (r, s')\<close>
  show ?case
  proof (cases "digest layer")
    case None
    with run show ?thesis by simp
  next
    case (Some dg)
    let ?p = "path_join blobsDir (safe dg)"
    let ?repo = "normalizeDockerRepo (imageName task)"
    consider (hub) "source task = ''dockerhub''"
      | (ali) "source task \<noteq> ''dockerhub''" "source task = ''aliyun''"
      | (other) "source task \<noteq> ''dockerhub''" "source task \<noteq> ''aliyun''"
      by blast
    then show ?thesis
    proof cases
      case hub
      show ?thesis
      proof (cases "getDockerToken reg ?repo")
        case (Inl e)
        with run Some hub show ?thesis by (simp add: Let_def)
      next
        case (Inr tok)
        obtain r1 s1 where b: "downloadDockerBlob reg taskId ?repo dg tok ?p (layerSize layer) s = (r1, s1)"
          by (cases "downloadDockerBlob reg taskId ?repo dg tok ?p (layerSize layer) s") auto
        have k: "taskField f s1 = taskField f s"
          by (rule taskField_downloadDockerBlob [OF st b])
        show ?thesis
        proof (cases r1)
          case None
          with run Some hub Inr b have "downloadLayers reg taskId task blobsDir rest s1 = (r, s')"
            by (simp add: Let_def)
          then show ?thesis using Cons.IH st k by simp
        next
          case (Some e)
          with run \<open>digest layer = Some dg\<close> hub Inr b show ?thesis
            using k by (simp add: Let_def)
        qed
      qed
    next
      case ali
      obtain r1 s1 where b: "downloadDockerBlob reg taskId (imageName task) dg [] ?p (layerSize layer) s = (r1, s1)"
        by (cases "downloadDockerBlob reg taskId (imageName task) dg [] ?p (layerSize layer) s") auto
      have k: "taskField f s1 = taskField f s"
        by (rule taskField_downloadDockerBlob [OF st b])
      have g: "downloadGenericBlob reg taskId (imageName task) dg ?p (layerSize layer) s = (r1, s1)"
        using b by (simp add: downloadGenericBlob_eq [where tok = "[]"])
      show ?thesis
      proof (cases r1)
        case None
        with run Some ali g have "downloadLayers reg taskId task blobsDir rest s1 = (r, s')"
          by (simp add: Let_def)
        then show ?thesis using Cons.IH st k by simp
      next
        case (Some e)
        with run \<open>digest layer = Some dg\<close> ali g show ?thesis
          using k by (simp add: Let_def)
      qed
    next
      case other
      with run Some have "downloadLayers reg taskId task blobsDir rest s = (r, s')"
        by (simp add: Let_def)
      then show ?thesis using Cons.IH st by simp
    qed
  qed
qed

lemma taskField_writeFile:
  "taskField f (writeFile p c s) = taskField f s"
  by (simp add: taskField_def writeFile_def)

text \<open>The retry counter is untouched by an attempt.\<close>

lemma retryCount_modifyTask_totalBytes:
  "taskField retryCount (modifyTask taskId (\<lambda>t. t\<lparr>totalBytes := n\<rparr>) s) = taskField retryCount s"
  by (rule ext) (auto simp: taskField_def modifyTask_def split: option.splits)

lemma retryCount_attempt:
  assumes "attempt reg taskId task s = (r, s')"
  shows "taskField retryCount s' = taskField retryCount s"
proof (cases "resolveManifest reg task")
  case (Inl e)
  with assms show ?thesis
    by (auto simp: attempt_def Let_def taskField_updateTaskStatus stable_retryCount)
next
  case (Inr info)
  let ?s2 = "modifyTask taskId (\<lambda>t. t\<lparr>totalBytes := sumLayerSizes (layerList info)\<rparr>)
               (updateTaskStatus taskId Downloading None s)"
  let ?dir = "path_join (targetPath task) ''blobs''"
  obtain r3 s3 where d: "downloadLayers reg taskId task ?dir (layerList info) ?s2 = (r3, s3)"
    by (cases "downloadLayers reg taskId task ?dir (layerList info) ?s2") auto
  have "taskField retryCount s3 = taskField retryCount ?s2"
    by (rule taskField_downloadLayers [OF stable_retryCount d])
  then have k: "taskField retryCount s3 = taskField retryCount s"
    by (simp add: retryCount_modifyTask_totalBytes taskField_updateTaskStatus stable_retryCount)
  show ?thesis
  proof (cases r3)
    case (Some e)
    with assms Inr d have "s' = s3"
      by (simp add: attempt_def Let_def)
    with k show ?thesis by simp
  next
    case None
    with assms Inr d have "taskField retryCount s' = taskField retryCount s3"
      by (auto simp: attempt_def Let_def verifyFile_def taskField_writeFile
                     taskField_updateTaskStatus stable_retryCount)
    with k show ?thesis by simp
  qed
qed

section \<open>Termination of the retry loop\<close>

lemma retryCountOf_taskField:
  "taskField retryCount s = taskField retryCount s' \<Longrightarrow> retryCountOf s taskId = retryCountOf s' taskId"
  by (auto simp: taskField_def retryCountOf_def fun_eq_iff split: option.splits
           dest!: spec [where x = taskId])

lemma activeTasks_taskField:
  "taskField f s = taskField f s' \<Longrightarrow> (activeTasks s taskId = None) = (activeTasks s' taskId = None)"
  by (auto simp: taskField_def fun_eq_iff dest!: spec [where x = taskId])

termination executeDownload
proof (relation "measure (\<lambda>(w, n, taskId, s).
          case activeTasks s taskId of None \<Rightarrow> 0 | Some t \<Rightarrow> Suc (retryAttempts - retryCountOf s taskId))")
  show "wf (measure (\<lambda>(w, n, taskId, s).
          case activeTasks s taskId of None \<Rightarrow> 0 | Some t \<Rightarrow> Suc (retryAttempts - retryCountOf s taskId)))"
    by simp
next
  fix w :: "nat \<Rightarrow> registry" and n :: nat and taskId :: string and s :: Service
    and task x1 s1 e s2 rc
  assume a: "activeTasks s taskId = Some task"
    and b: "(x1, s1) = attempt (w n) taskId task s"
    and c: "x1 = Some e"
    and d: "s2 = updateTaskStatus taskId Error (Some e) s1"
    and r: "rc = retryCountOf s2 taskId"
    and lt: "rc < retryAttempts"
  have "taskField retryCount s1 = taskField retryCount s"
    using b by (intro retryCount_attempt [of "w n" taskId task s x1 s1]) simp
  then have k: "taskField retryCount s2 = taskField retryCount s"
    using d by (simp add: taskField_updateTaskStatus stable_retryCount)
  have rc: "retryCountOf s taskId = rc"
    using retryCountOf_taskField [OF k] r by simp
  from activeTasks_taskField [OF k, of taskId] a
  obtain t2 where t2: "activeTasks s2 taskId = Some t2" by auto
  let ?s3 = "delay retryDelay (modifyTask taskId (\<lambda>t. t\<lparr>retryCount := Some (rc + 1)\<rparr>) s2)"
  have "activeTasks ?s3 taskId = Some (t2\<lparr>retryCount := Some (rc + 1)\<rparr>)"
    using t2 by (simp add: delay_def modifyTask_def)
  then have "retryCountOf ?s3 taskId = rc + 1"
    by (simp add: retryCountOf_def)
  with \<open>activeTasks ?s3 taskId = Some (t2\<lparr>retryCount := Some (rc + 1)\<rparr>)\<close> a rc lt
  show "((w, Suc n, taskId, ?s3), (w, n, taskId, s))
        \<in> measure (\<lambda>(w, n, taskId, s).
          case activeTasks s taskId of None \<Rightarrow> 0 | Some t \<Rightarrow> Suc (retryAttempts - retryCountOf s taskId))"
    by simp
qed

declare executeDownload.simps [simp del]

termination toString
  by (relation "measure (\<lambda>n. n)") auto

declare toString.simps [simp del]

section \<open>Choice of the platform manifest\<close>

lemma find_first_index:
  "find P xs = Some x \<Longrightarrow> \<exists>i<length xs. P (xs ! i) \<and> (\<forall>j<i. \<not> P (xs ! j)) \<and> x = xs ! i"
  by (auto simp: find_Some_iff)

text \<open>
  C9 (as amended). When the fetched document has a \<^verbatim>\<open>manifests\<close> array, the digest the
  engine goes on with is the digest of the first entry whose architecture is amd64,
  whatever its OS; when no entry is amd64, the digest of the first entry of the list.
  No requested platform enters the choice.
\<close>

theorem selectedDigest_first_amd64_else_first:
  assumes "manifests listDoc = Some ms"
  shows "(\<exists>i<length ms. isAmd64 (ms ! i) \<and> (\<forall>j<i. \<not> isAmd64 (ms ! j))
            \<and> selectedDigest listDoc = digest (ms ! i))
         \<or> ((\<forall>m\<in>set ms. \<not> isAmd64 m)
            \<and> selectedDigest listDoc = (case ms of [] \<Rightarrow> None | m # _ \<Rightarrow> digest m))"
proof (cases "find isAmd64 ms")
  case None
  then have "\<forall>m\<in>set ms. \<not> isAmd64 m"
    by (simp add: find_None_iff)
  moreover have "selectedDigest listDoc = (case ms of [] \<Rightarrow> None | m # _ \<Rightarrow> digest m)"
    using assms None by (simp add: selectedDigest_def pickManifest_def split: list.splits)
  ultimately show ?thesis by blast
next
  case (Some m)
  from find_first_index [OF Some]
  obtain i where i: "i < length ms" "isAmd64 (ms ! i)" "\<forall>j<i. \<not> isAmd64 (ms ! j)" "m = ms ! i"
    by blast
  have "selectedDigest listDoc = digest (ms ! i)"
    using assms Some i(4) by (simp add: selectedDigest_def pickManifest_def)
  with i show ?thesis by blast
qed

theorem selectedDigest_first_amd64_else_first_witness:
  "manifests \<lparr>manifests = Some exampleList, config = None, layers = None\<rparr> = Some exampleList
   \<and> selectedDigest \<lparr>manifests = Some exampleList, config = None, layers = None\<rparr> = Some ''sha256:win''
   \<and> isAmd64 (exampleList ! 0)"
  using selectedDigest_first_amd64_else_first
          [of "\<lparr>manifests = Some exampleList, config = None, layers = None\<rparr>" exampleList]
  by (simp add: exampleList_def examplePlatform_def selectedDigest_def pickManifest_def isAmd64_def)

text \<open>
  C9 as stated fails: for the requested platform linux/amd64 the specification's
  rule picks the exact match, the second entry; the code picks the first amd64 entry,
  which is a windows image.
\<close>

theorem selectedDigest_ignores_os_counterexample:
  "map_option digest (spec_select_platform ''linux'' ''amd64'' exampleList) = Some (Some ''sha256:lin'')
   \<and> selectedDigest \<lparr>manifests = Some exampleList, config = None, layers = None\<rparr> = Some ''sha256:win''"
  by (simp add: exampleList_def examplePlatform_def selectedDigest_def pickManifest_def isAmd64_def
                spec_select_platform_def)

section \<open>The delete route\<close>

text \<open>
  C5. The route answers that the named task was deleted, but runs the global cleanup:
  deleting a failed task \<open>a\<close> while a completed task \<open>b\<close> is stored leaves \<open>a\<close> in the
  store and removes \<open>b\<close>.
\<close>

theorem deleteDownload_keeps_named_removes_other:
  "(let s = exampleService [(''a'', exampleTask ''a'' ''dockerhub'' Error),
                            (''b'', exampleTask ''b'' ''dockerhub'' Completed)]
    in fst (deleteDownload ''a'' s) = (200, Message ''Download task deleted successfully'')
       \<and> activeTasks (snd (deleteDownload ''a'' s)) ''a'' = Some (exampleTask ''a'' ''dockerhub'' Error)
       \<and> activeTasks s ''b'' = Some (exampleTask ''b'' ''dockerhub'' Completed)
       \<and> activeTasks (snd (deleteDownload ''a'' s)) ''b'' = None)"
  by (simp add: deleteDownload_def getTask_def cleanupCompletedTasks_def exampleService_def
                exampleTask_def Let_def)

section \<open>The total size of a task\<close>

lemma foldl_layerSize:
  "foldl (\<lambda>sum l. sum + layerSize l) a ls = a + sum_list (map layerSize ls)"
  by (induction ls arbitrary: a) simp_all

lemma sumLayerSizes_sum_list:
  "sumLayerSizes ls = sum_list (map layerSize ls)"
  by (simp add: sumLayerSizes_def foldl_layerSize)

lemma taskField_modifyTask_here:
  "activeTasks s taskId = Some t \<Longrightarrow> taskField f (modifyTask taskId g s) taskId = Some (f (g t))"
  by (simp add: taskField_def modifyTask_def)

lemma updateTaskStatus_present:
  "activeTasks s taskId = Some t \<Longrightarrow> \<exists>t'. activeTasks (updateTaskStatus taskId st a s) taskId = Some t'"
  by (auto simp: updateTaskStatus_def emit_def Let_def split: option.splits DownloadStatus.splits)

text \<open>
  C2 (as amended). When the manifest resolution of an attempt succeeds, the task's
  \<^verbatim>\<open>totalBytes\<close> is, when the attempt ends, the sum of the sizes of the layers of the
  selected manifest (a layer without a size counts 0); the size of the config blob is
  not part of it.
\<close>

theorem totalBytes_is_layer_sum:
  assumes present: "activeTasks s taskId = Some task"
    and resolved: "resolveManifest reg task = Inr info"
    and run: "attempt reg taskId task s = (r, s')"
  shows "map_option totalBytes (activeTasks s' taskId) = Some (sum_list (map layerSize (layerList info)))"
proof -
  let ?s1 = "updateTaskStatus taskId Downloading None s"
  let ?s2 = "modifyTask taskId (\<lambda>t. t\<lparr>totalBytes := sumLayerSizes (layerList info)\<rparr>) ?s1"
  let ?dir = "path_join (targetPath task) ''blobs''"
  obtain t1 where t1: "activeTasks ?s1 taskId = Some t1"
    using updateTaskStatus_present [OF present] by blast
  have set: "taskField totalBytes ?s2 taskId = Some (sum_list (map layerSize (layerList info)))"
    using taskField_modifyTask_here [OF t1, of totalBytes] by (simp add: sumLayerSizes_sum_list)
  obtain r3 s3 where d: "downloadLayers reg taskId task ?dir (layerList info) ?s2 = (r3, s3)"
    by (cases "downloadLayers reg taskId task ?dir (layerList info) ?s2") auto
  have k: "taskField totalBytes s3 = taskField totalBytes ?s2"
    by (rule taskField_downloadLayers [OF stable_totalBytes d])
  have "taskField totalBytes s' = taskField totalBytes s3"
  proof (cases r3)
    case (Some e)
    with run resolved d show ?thesis by (simp add: attempt_def Let_def)
  next
    case None
    with run resolved d show ?thesis
      by (auto simp: attempt_def Let_def verifyFile_def taskField_writeFile
                     taskField_updateTaskStatus stable_totalBytes)
  qed
  with k set have "taskField totalBytes s' taskId = Some (sum_list (map layerSize (layerList info)))"
    by simp
  then show ?thesis by (simp add: taskField_def)
qed

theorem totalBytes_is_layer_sum_witness:
  "(let s = exampleService [(''1'', exampleTask ''1'' ''dockerhub'' Pending)];
        task = exampleTask ''1'' ''dockerhub'' Pending;
        info = \<lparr>manifest = exampleManifest, configData = ''{}'',
                layerList = [\<lparr>digest = Some ''sha256:aa'', size' = Some 2, platform = None\<rparr>,
                             \<lparr>digest = Some ''sha256:bb'', size' = Some 2, platform = None\<rparr>]\<rparr>
    in activeTasks s ''1'' = Some task
       \<and> resolveManifest exampleRegistry task = Inr info
       \<and> map_option totalBytes (activeTasks (snd (attempt exampleRegistry ''1'' task s)) ''1'') = Some 4)"
proof -
  let ?s = "exampleService [(''1'', exampleTask ''1'' ''dockerhub'' Pending)]"
  let ?task = "exampleTask ''1'' ''dockerhub'' Pending"
  let ?info = "\<lparr>manifest = exampleManifest, configData = ''{}'',
                layerList = [\<lparr>digest = Some ''sha256:aa'', size' = Some 2, platform = None\<rparr>,
                             \<lparr>digest = Some ''sha256:bb'', size' = Some 2, platform = None\<rparr>]\<rparr>"
  have a: "activeTasks ?s ''1'' = Some ?task"
    by (simp add: exampleService_def)
  have b: "resolveManifest exampleRegistry ?task = Inr ?info"
    by (simp add: resolveManifest_def exampleTask_def exampleRegistry_def exampleManifest_def
                  normalizeDockerRepo_def getDockerToken_def getDockerManifestInfo_def
                  orElse_def selectedDigest_def Let_def)
  have c: "attempt exampleRegistry ''1'' ?task ?s
           = (fst (attempt exampleRegistry ''1'' ?task ?s), snd (attempt exampleRegistry ''1'' ?task ?s))"
    by simp
  from totalBytes_is_layer_sum [OF a b c] a b show ?thesis
    by (simp add: layerSize_def)
qed

text \<open>
  C2 as stated fails: for a manifest with a config blob of 5 bytes and two layers
  of 2 bytes the specification's total is 9, and the task's \<^verbatim>\<open>totalBytes\<close> is 4.
\<close>

theorem totalBytes_without_config_counterexample:
  "spec_total_bytes exampleManifest = 9
   \<and> map_option totalBytes
        (activeTasks (executeDownload (\<lambda>n. exampleRegistry) 0 ''1''
           (exampleService [(''1'', exampleTask ''1'' ''dockerhub'' Pending)])) ''1'') = Some 4"
  by (simp add: spec_total_bytes_def executeDownload.simps exampleService_def exampleTask_def
        exampleRegistry_def exampleManifest_def attempt_def updateTaskStatus_def emit_def
        resolveManifest_def normalizeDockerRepo_def getDockerToken_def getDockerManifestInfo_def
        orElse_def selectedDigest_def modifyTask_def sumLayerSizes_def layerSize_def path_join_def
        safe_def downloadDockerBlob_def onData_def updateTaskProgress_def appendFile_def
        writeFile_def verifyFile_def Let_def)

section \<open>What a run can do to the state\<close>

lemma evolves_trans:
  "evolves b c \<Longrightarrow> evolves a b \<Longrightarrow> evolves a c"
  by (induction rule: evolves.induct) (auto intro: evolves.intros)

lemma evolves_onData:
  "evolves s0 s \<Longrightarrow> evolves s0 (onData taskId expected chunk s)"
  by (auto simp: onData_def Let_def intro: evolves.intros split: option.splits)

lemma evolves_appendFile:
  "evolves s0 s \<Longrightarrow> evolves s0 (appendFile p chunk s)"
  by (auto simp: appendFile_def intro: evolves.intros)

lemma evolves_consumeStream:
  "consumeStream taskId outPath expected fin evs d s = (r, d', s') \<Longrightarrow> evolves s0 s
   \<Longrightarrow> evolves s0 s'"
proof (induction taskId outPath expected fin evs d s rule: consumeStream.induct)
  case (1 taskId outPath expectedSize fin downloaded s)
  then show ?case by (auto split: stream_end.splits)
next
  case (2 taskId outPath expectedSize fin chunk evs downloaded s)
  then show ?case by (simp add: evolves_appendFile evolves_onData)
next
  case (3 taskId outPath expectedSize fin evs downloaded s)
  then show ?case by (auto intro: evolves.paused split: if_splits)
qed

lemma evolves_downloadDockerBlob:
  assumes run: "downloadDockerBlob reg taskId repo dg tok outPath expected s = (r, s')"
    and ev: "evolves s0 s"
  shows "evolves s0 s'"
proof (cases "blob_at reg repo dg")
  case (Inl e)
  with run have "s' = s\<lparr>taskControllers := insert taskId (taskControllers s)\<rparr>"
    by (auto simp: downloadDockerBlob_def Let_def)
  with ev show ?thesis by (auto intro: evolves.controllers)
next
  case (Inr b)
  obtain evs fin where b: "b = (evs, fin)" by (cases b)
  let ?s1 = "(s\<lparr>taskControllers := insert taskId (taskControllers s)\<rparr>)
               \<lparr>files := (files s)(outPath \<mapsto> Bytes [])\<rparr>"
  have e1: "evolves s0 ?s1"
    by (intro evolves.disk evolves.controllers ev)
  obtain r2 d2 s2 where c: "consumeStream taskId outPath expected fin evs 0 ?s1 = (r2, d2, s2)"
    by (cases "consumeStream taskId outPath expected fin evs 0 ?s1") auto
  have e2: "evolves s0 s2"
    by (rule evolves_consumeStream [OF c e1])
  show ?thesis
  proof (cases r2)
    case (Some e)
    with run Inr b c have "s' = s2"
      by (simp add: downloadDockerBlob_def Let_def)
    with e2 show ?thesis by simp
  next
    case None
    show ?thesis
    proof (cases "activeTasks s2 taskId")
      case n: None
      with run Inr b c None have "s' = s2"
        by (simp add: downloadDockerBlob_def Let_def)
      with e2 show ?thesis by simp
    next
      case (Some t)
      with run Inr b c None
      have "s' = (s2\<lparr>activeTasks := (activeTasks s2)(taskId \<mapsto>
               t\<lparr>downloadedBytes := downloadedBytes t + d2\<rparr>)\<rparr>)
             \<lparr>taskControllers := taskControllers s2 - {taskId}\<rparr>"
        by (simp add: downloadDockerBlob_def Let_def)
      moreover have "evolves s0 ((s2\<lparr>activeTasks := (activeTasks s2)(taskId \<mapsto>
               t\<lparr>downloadedBytes := downloadedBytes t + d2\<rparr>)\<rparr>)
             \<lparr>taskControllers := taskControllers s2 - {taskId}\<rparr>)"
        by (intro evolves.controllers evolves.counted e2 Some)
      ultimately show ?thesis by simp
    qed
  qed
qed

lemma evolves_downloadLayers:
  "downloadLayers reg taskId task blobsDir ls s = (r, s') \<Longrightarrow> evolves s0 s \<Longrightarrow> evolves s0 s'"
proof (induction ls arbitrary: s)
  case Nil
  then show ?case by simp
next
  case (Cons layer rest)
  note run = \<open>downloadLayers reg taskId task blobsDir (layer # rest) s = (r, s')\<close>
  note ev = \<open>evolves s0 s\<close>
  show ?case
  proof (cases "digest layer")
    case None
    with run ev show ?thesis by simp
  next
    case (Some dg)
    let ?p = "path_join blobsDir (safe dg)"
    let ?repo = "normalizeDockerRepo (imageName task)"
    consider (hub) "source task = ''dockerhub''"
      | (ali) "source task \<noteq> ''dockerhub''" "source task = ''aliyun''"
      | (other) "source task \<noteq> ''dockerhub''" "source task \<noteq> ''aliyun''"
      by blast
    then show ?thesis
    proof cases
      case hub
      show ?thesis
      proof (cases "getDockerToken reg ?repo")
        case (Inl e)
        with run Some hub ev show ?thesis by (simp add: Let_def)
      next
        case (Inr tok)
        obtain r1 s1 where b: "downloadDockerBlob reg taskId ?repo dg tok ?p (layerSize layer) s = (r1, s1)"
          by (cases "downloadDockerBlob reg taskId ?repo dg tok ?p (layerSize layer) s") auto
        have k: "evolves s0 s1"
          by (rule evolves_downloadDockerBlob [OF b ev])
        show ?thesis
        proof (cases r1)
          case None
          with run Some hub Inr b have "downloadLayers reg taskId task blobsDir rest s1 = (r, s')"
            by (simp add: Let_def)
          then show ?thesis using Cons.IH k by simp
        next
          case (Some e)
          with run \<open>digest layer = Some dg\<close> hub Inr b show ?thesis
            using k by (simp add: Let_def)
        qed
      qed
    next
      case ali
      obtain r1 s1 where b: "downloadDockerBlob reg taskId (imageName task) dg [] ?p (layerSize layer) s = (r1, s1)"
        by (cases "downloadDockerBlob reg taskId (imageName task) dg [] ?p (layerSize layer) s") auto
      have k: "evolves s0 s1"
        by (rule evolves_downloadDockerBlob [OF b ev])
      have g: "downloadGenericBlob reg taskId (imageName task) dg ?p (layerSize layer) s = (r1, s1)"
        using b by (simp add: downloadGenericBlob_eq [where tok = "[]"])
      show ?thesis
      proof (cases r1)
        case None
        with run Some ali g have "downloadLayers reg taskId task blobsDir rest s1 = (r, s')"
          by (simp add: Let_def)
        then show ?thesis using Cons.IH k by simp
      next
        case (Some e)
        with run \<open>digest layer = Some dg\<close> ali g show ?thesis
          using k by (simp add: Let_def)
      qed
    next
      case other
      with run Some have "downloadLayers reg taskId task blobsDir rest s = (r, s')"
        by (simp add: Let_def)
      then show ?thesis using Cons.IH ev by simp
    qed
  qed
qed

lemma evolves_attempt_from_first:
  assumes run: "attempt reg taskId task s = (r, s')"
    and ev: "evolves s0 (updateTaskStatus taskId Downloading None s)"
  shows "evolves s0 s'"
proof (cases "resolveManifest reg task")
  case (Inl e)
  with run have "s' = updateTaskStatus taskId Downloading None s"
    by (auto simp: attempt_def Let_def)
  with ev show ?thesis by simp
next
  case (Inr info)
  let ?s2 = "modifyTask taskId (\<lambda>t. t\<lparr>totalBytes := sumLayerSizes (layerList info)\<rparr>)
               (updateTaskStatus taskId Downloading None s)"
  let ?dir = "path_join (targetPath task) ''blobs''"
  have e2: "evolves s0 ?s2"
    by (intro evolves.sized ev)
  obtain r3 s3 where d: "downloadLayers reg taskId task ?dir (layerList info) ?s2 = (r3, s3)"
    by (cases "downloadLayers reg taskId task ?dir (layerList info) ?s2") auto
  have e3: "evolves s0 s3"
    by (rule evolves_downloadLayers [OF d e2])
  show ?thesis
  proof (cases r3)
    case (Some e)
    with run Inr d have "s' = s3"
      by (simp add: attempt_def Let_def)
    with e3 show ?thesis by simp
  next
    case None
    with run Inr d
    have "s' = updateTaskStatus taskId Completed None
                 (writeFile (path_join (targetPath task) ''config.json'') (ConfigJson (configData info))
                    (writeFile (path_join (targetPath task) ''manifest.json'') (ManifestJson (manifest info)) s3))"
      by (simp add: attempt_def Let_def verifyFile_def)
    moreover have "evolves s0 (updateTaskStatus taskId Completed None
                 (writeFile (path_join (targetPath task) ''config.json'') (ConfigJson (configData info))
                    (writeFile (path_join (targetPath task) ''manifest.json'') (ManifestJson (manifest info)) s3)))"
      unfolding writeFile_def by (intro evolves.status evolves.disk e3)
    ultimately show ?thesis by simp
  qed
qed

lemma evolves_attempt:
  "attempt reg taskId task s = (r, s') \<Longrightarrow> evolves s0 s \<Longrightarrow> evolves s0 s'"
  by (erule evolves_attempt_from_first) (rule evolves.status)

lemma evolves_executeDownload:
  "evolves s0 s \<Longrightarrow> evolves s0 (executeDownload w n taskId s)"
proof (induction w n taskId s rule: executeDownload.induct)
  case (1 w n taskId s)
  show ?case
  proof (cases "activeTasks s taskId")
    case None
    with "1.prems" show ?thesis by (simp add: executeDownload.simps)
  next
    case (Some task)
    obtain r s1 where a: "attempt (w n) taskId task s = (r, s1)"
      by (cases "attempt (w n) taskId task s") auto
    have e1: "evolves s0 s1"
      by (rule evolves_attempt [OF a "1.prems"])
    show ?thesis
    proof (cases r)
      case None
      with Some a e1 show ?thesis by (simp add: executeDownload.simps)
    next
      case e: (Some e)
      let ?s2 = "updateTaskStatus taskId Error (Some e) s1"
      let ?rc = "retryCountOf ?s2 taskId"
      let ?s3 = "delay retryDelay (modifyTask taskId (\<lambda>t. t\<lparr>retryCount := Some (?rc + 1)\<rparr>) ?s2)"
      have e2: "evolves s0 ?s2" by (intro evolves.status e1)
      show ?thesis
      proof (cases "?rc < retryAttempts")
        case True
        have e3: "evolves s0 ?s3" by (intro evolves.waited evolves.retried e2)
        have "evolves s0 (executeDownload w (Suc n) taskId ?s3)"
          using "1.IH" [OF Some a [symmetric] e refl refl True e3] .
        then show ?thesis
          using Some a e True by (simp add: executeDownload.simps [of w n taskId s] Let_def)
      next
        case False
        then show ?thesis
          using Some a e e2 by (simp add: executeDownload.simps [of w n taskId s] Let_def)
      qed
    qed
  qed
qed

lemma evolves_executeDownload_from_first:
  assumes present: "activeTasks s taskId = Some task"
  shows "evolves (updateTaskStatus taskId Downloading None s) (executeDownload w n taskId s)"
proof -
  let ?first = "updateTaskStatus taskId Downloading None s"
  obtain r s1 where a: "attempt (w n) taskId task s = (r, s1)"
    by (cases "attempt (w n) taskId task s") auto
  have e1: "evolves ?first s1"
    by (rule evolves_attempt_from_first [OF a evolves.same])
  show ?thesis
  proof (cases r)
    case None
    with present a e1 show ?thesis by (simp add: executeDownload.simps)
  next
    case (Some e)
    let ?s2 = "updateTaskStatus taskId Error (Some e) s1"
    let ?rc = "retryCountOf ?s2 taskId"
    let ?s3 = "delay retryDelay (modifyTask taskId (\<lambda>t. t\<lparr>retryCount := Some (?rc + 1)\<rparr>) ?s2)"
    have e2: "evolves ?first ?s2" by (intro evolves.status e1)
    have e3: "evolves ?first ?s3" by (intro evolves.waited evolves.retried e2)
    have e4: "evolves ?first (executeDownload w (Suc n) taskId ?s3)"
      by (rule evolves_executeDownload [OF e3])
    from present a Some e2 e4 show ?thesis
      by (simp add: executeDownload.simps [of w n taskId s] Let_def)
  qed
qed

text \<open>Events are only ever appended, and no step of a run clears the error of a task.\<close>

lemma events_evolves:
  "evolves s s' \<Longrightarrow> \<exists>rest. events s' = events s @ rest"
proof (induction rule: evolves.induct)
  case (status s s1 taskId st a)
  then show ?case
    by (auto simp: updateTaskStatus_def emit_def Let_def split: option.splits DownloadStatus.splits)
next
  case (progressed s s1 taskId p d sp)
  then show ?case
    by (auto simp: updateTaskProgress_def emit_def Let_def split: option.splits)
next
  case (paused s s1 taskId)
  then show ?case
    by (auto simp: pauseDownload_def emit_def Let_def split: option.splits)
qed (auto simp: modifyTask_def delay_def split: option.splits)

lemma hasError_evolves:
  "evolves s s' \<Longrightarrow> hasError s taskId \<Longrightarrow> hasError s' taskId"
proof (induction rule: evolves.induct)
  case (status s s1 i st a)
  then show ?case
    by (auto simp: hasError_def updateTaskStatus_def emit_def Let_def
             split: option.splits DownloadStatus.splits)
next
  case (progressed s s1 i p d sp)
  then show ?case
    by (auto simp: hasError_def updateTaskProgress_def emit_def Let_def split: option.splits)
next
  case (paused s s1 i)
  then show ?case
    by (auto simp: hasError_def pauseDownload_def emit_def Let_def split: option.splits)
next
  case (counted s s1 i t b)
  then show ?case
    by (auto simp: hasError_def split: option.splits)
qed (auto simp: hasError_def modifyTask_def delay_def split: option.splits)

section \<open>Progress values\<close>

lemma emittedProgress_emit:
  "emittedProgress (emit e s)
   = emittedProgress s @ (case progressOf e of None \<Rightarrow> [] | Some p \<Rightarrow> [p])"
  by (simp add: emittedProgress_def emit_def map_filter_def split: option.splits)

lemma activeTasks_emit:
  "activeTasks (emit e s) = activeTasks s"
  by (simp add: emit_def)

lemma emittedProgress_activeTasks_update:
  "emittedProgress (s\<lparr>activeTasks := m\<rparr>) = emittedProgress s"
  by (simp add: emittedProgress_def)

lemma emittedProgress_taskControllers_update:
  "emittedProgress (s\<lparr>taskControllers := c\<rparr>) = emittedProgress s"
  by (simp add: emittedProgress_def)

lemmas progress_simps =
  emittedProgress_emit activeTasks_emit emittedProgress_activeTasks_update
  emittedProgress_taskControllers_update

lemma progressBounded_updateTaskStatus:
  "progressBounded s \<Longrightarrow> progressBounded (updateTaskStatus taskId st a s)"
  by (auto simp: progressBounded_def updateTaskStatus_def progress_simps Let_def
           split: option.splits DownloadStatus.splits if_splits)

lemma progressBounded_updateTaskProgress:
  "progressBounded s \<Longrightarrow> progressBounded (updateTaskProgress taskId p d sp s)"
  by (auto simp: progressBounded_def updateTaskProgress_def progress_simps Let_def
           split: option.splits if_splits)

lemma progressBounded_pauseDownload:
  "progressBounded s \<Longrightarrow> progressBounded (pauseDownload taskId s)"
  by (auto simp: progressBounded_def pauseDownload_def progress_simps Let_def
           split: option.splits if_splits)

lemma progressBounded_modifyTask:
  "progressBounded s \<Longrightarrow> (\<And>t. progress (g t) = progress t)
   \<Longrightarrow> progressBounded (modifyTask taskId g s)"
  by (auto simp: progressBounded_def modifyTask_def progress_simps
           split: option.splits if_splits)

lemma progressBounded_files_update:
  "progressBounded s \<Longrightarrow> progressBounded (s\<lparr>files := f\<rparr>)"
  by (simp add: progressBounded_def emittedProgress_def)

lemma progressBounded_taskControllers_update:
  "progressBounded s \<Longrightarrow> progressBounded (s\<lparr>taskControllers := c\<rparr>)"
  by (simp add: progressBounded_def emittedProgress_def)

lemma progressBounded_delay:
  "progressBounded s \<Longrightarrow> progressBounded (delay ms s)"
  by (simp add: progressBounded_def emittedProgress_def delay_def)

lemma progressBounded_counted:
  assumes "progressBounded s" and "activeTasks s taskId = Some t"
  shows "progressBounded (s\<lparr>activeTasks := (activeTasks s)(taskId \<mapsto> t\<lparr>downloadedBytes := b\<rparr>)\<rparr>)"
proof -
  have "progress t \<le> 100"
    using assms by (simp add: progressBounded_def)
  with assms(1) show ?thesis
    by (simp add: progressBounded_def emittedProgress_activeTasks_update)
qed

lemma progressBounded_evolves:
  "evolves s s' \<Longrightarrow> progressBounded s \<Longrightarrow> progressBounded s'"
proof (induction rule: evolves.induct)
  case (same s)
  then show ?case .
next
  case (status s s1 taskId st a)
  then show ?case by (intro progressBounded_updateTaskStatus) simp
next
  case (progressed s s1 taskId p d sp)
  then show ?case by (intro progressBounded_updateTaskProgress) simp
next
  case (paused s s1 taskId)
  then show ?case by (intro progressBounded_pauseDownload) simp
next
  case (disk s s1 f)
  then show ?case by (intro progressBounded_files_update) simp
next
  case (controllers s s1 c)
  then show ?case by (intro progressBounded_taskControllers_update) simp
next
  case (counted s s1 taskId t b)
  then show ?case by (intro progressBounded_counted) simp_all
next
  case (sized s s1 taskId m)
  then show ?case by (intro progressBounded_modifyTask) simp_all
next
  case (retried s s1 taskId k)
  then show ?case by (intro progressBounded_modifyTask) simp_all
next
  case (waited s s1 ms)
  then show ?case by (intro progressBounded_delay) simp
qed

lemma progressBounded_executeDownload:
  "progressBounded s \<Longrightarrow> progressBounded (executeDownload w n taskId s)"
  by (rule progressBounded_evolves [OF evolves_executeDownload [OF evolves.same]])

text \<open>
  C10. Every progress value the service records or emits is at most 100: whatever value
  \<^verbatim>\<open>updateTaskProgress\<close> is called with, and through every run started by
  \<^verbatim>\<open>executeDownload\<close>, \<^verbatim>\<open>startDownload\<close>, \<^verbatim>\<open>resumeDownload\<close> or \<^verbatim>\<open>retryDownload\<close>, for every
  registry and so for every sequence of chunks.
\<close>

theorem progress_never_exceeds_100:
  assumes "progressBounded s"
  shows "progressBounded (updateTaskProgress taskId p d sp s)
       \<and> progressBounded (executeDownload w n taskId s)
       \<and> progressBounded (snd (startDownload w n name tg src target s))
       \<and> progressBounded (resumeDownload w n taskId s)
       \<and> progressBounded (retryDownload w n taskId s)"
proof -
  let ?id = "toString (now s)"
  let ?task = "\<lparr>id' = ?id, imageName = name, tag = tg, source = src, status = Pending,
                  progress = 0, speed = 0, totalBytes = 0, downloadedBytes = 0,
                  targetPath = orElse target (path_join (path_join (downloadsRoot s) ''tasks'') ?id),
                  createdAt = now s, updatedAt = now s,
                  error = None, retryCount = None, downloadedSize = None\<rparr>"
  have created: "progressBounded (emit (TaskCreated ?task) (s\<lparr>activeTasks := (activeTasks s)(?id \<mapsto> ?task)\<rparr>))"
    using assms by (auto simp: progressBounded_def progress_simps)
  have start: "progressBounded (snd (startDownload w n name tg src target s))"
    using progressBounded_executeDownload [OF created, of w n ?id]
    by (simp add: startDownload_def Let_def)
  have resume: "progressBounded (resumeDownload w n taskId s)"
    using assms progressBounded_executeDownload [OF assms, of w n taskId]
    by (simp add: resumeDownload_def split: option.splits)
  have reset: "progressBounded (modifyTask taskId (retryReset (now s)) s)"
    using assms
    by (auto simp: progressBounded_def modifyTask_def retryReset_def progress_simps
             split: option.splits)
  have retry: "progressBounded (retryDownload w n taskId s)"
    using assms progressBounded_executeDownload [OF reset, of w n taskId]
    by (simp add: retryDownload_def split: option.splits)
  from assms start resume retry show ?thesis
    by (simp add: progressBounded_updateTaskProgress progressBounded_executeDownload)
qed

theorem progress_never_exceeds_100_witness:
  "(let s = exampleService [(''1'', (exampleTask ''1'' ''dockerhub'' Paused)\<lparr>downloadedBytes := 10\<rparr>)];
        s' = resumeDownload (\<lambda>n. exampleRegistry) 0 ''1'' s
    in progressBounded s
       \<and> map_option totalBytes (activeTasks s' ''1'') = Some 4
       \<and> map_option downloadedBytes (activeTasks s' ''1'') = Some 14
       \<and> emittedProgress s' = [100, 100]
       \<and> progressBounded s')"
proof -
  let ?s = "exampleService [(''1'', (exampleTask ''1'' ''dockerhub'' Paused)\<lparr>downloadedBytes := 10\<rparr>)]"
  let ?s' = "resumeDownload (\<lambda>n. exampleRegistry) 0 ''1'' ?s"
  have b: "progressBounded ?s"
    by (auto simp: progressBounded_def emittedProgress_def exampleService_def exampleTask_def
                   map_filter_def split: if_splits)
  have run: "map_option totalBytes (activeTasks ?s' ''1'') = Some 4
             \<and> map_option downloadedBytes (activeTasks ?s' ''1'') = Some 14
             \<and> emittedProgress ?s' = [100, 100]"
    by (simp add: resumeDownload_def emittedProgress_def map_filter_def
          executeDownload.simps exampleService_def exampleTask_def
          exampleRegistry_def exampleManifest_def attempt_def updateTaskStatus_def emit_def
          resolveManifest_def normalizeDockerRepo_def getDockerToken_def getDockerManifestInfo_def
          orElse_def selectedDigest_def modifyTask_def sumLayerSizes_def layerSize_def path_join_def
          safe_def downloadDockerBlob_def onData_def updateTaskProgress_def appendFile_def
          writeFile_def verifyFile_def Let_def)
  from progress_never_exceeds_100 [OF b, of "''1''" 0 0 0 "\<lambda>n. exampleRegistry" 0 "''nginx''" "''latest''" "''dockerhub''" None]
    b run
  show ?thesis by (simp add: Let_def)
qed

section \<open>Retrying a task\<close>

text \<open>
  C4 (as amended). For every existing task, \<^verbatim>\<open>retryDownload\<close> sets the retry counter to
  0 (and the progress, the speed and \<^verbatim>\<open>downloadedSize\<close> to 0), sets the status to
  pending and then starts \<^verbatim>\<open>executeDownload\<close> on that record, whose first event shows
  the task as downloading; it leaves the task's error and its \<^verbatim>\<open>downloadedBytes\<close> as
  they were, and no later step of the run clears the error.
\<close>

theorem retryDownload_resets_counter_keeps_error:
  assumes "activeTasks s taskId = Some task"
  shows "retryDownload w n taskId s
           = executeDownload w n taskId
               (s\<lparr>activeTasks := (activeTasks s)(taskId \<mapsto> retryReset (now s) task)\<rparr>)
         \<and> retryCount (retryReset (now s) task) = Some 0
         \<and> status (retryReset (now s) task) = Pending
         \<and> progress (retryReset (now s) task) = 0
         \<and> speed (retryReset (now s) task) = 0
         \<and> downloadedSize (retryReset (now s) task) = Some 0
         \<and> error (retryReset (now s) task) = error task
         \<and> downloadedBytes (retryReset (now s) task) = downloadedBytes task
         \<and> (\<exists>rest. events (retryDownload w n taskId s)
                = events s @ TaskUpdated ((retryReset (now s) task)\<lparr>status := Downloading\<rparr>) # rest)
         \<and> (error task \<noteq> None \<longrightarrow> hasError (retryDownload w n taskId s) taskId)"
proof -
  let ?s0 = "s\<lparr>activeTasks := (activeTasks s)(taskId \<mapsto> retryReset (now s) task)\<rparr>"
  let ?first = "updateTaskStatus taskId Downloading None ?s0"
  have unfold: "retryDownload w n taskId s = executeDownload w n taskId ?s0"
    using assms by (simp add: retryDownload_def modifyTask_def)
  have p0: "activeTasks ?s0 taskId = Some (retryReset (now s) task)"
    by simp
  have run: "evolves ?first (executeDownload w n taskId ?s0)"
    by (rule evolves_executeDownload_from_first [OF p0])
  have "events ?first = events s @ [TaskUpdated ((retryReset (now s) task)\<lparr>status := Downloading\<rparr>)]"
    by (simp add: updateTaskStatus_def emit_def Let_def retryReset_def)
  with events_evolves [OF run]
  have ev: "\<exists>rest. events (retryDownload w n taskId s)
              = events s @ TaskUpdated ((retryReset (now s) task)\<lparr>status := Downloading\<rparr>) # rest"
    by (auto simp: unfold)
  have err: "hasError (retryDownload w n taskId s) taskId" if "error task \<noteq> None"
  proof -
    have "hasError ?s0 taskId"
      using that by (simp add: hasError_def retryReset_def)
    then have "hasError (executeDownload w n taskId ?s0) taskId"
      by (rule hasError_evolves [OF evolves_executeDownload [OF evolves.same]])
    then show ?thesis by (simp add: unfold)
  qed
  from unfold ev err show ?thesis
    by (simp add: retryReset_def)
qed

theorem retryDownload_resets_counter_keeps_error_witness:
  "(let task = (exampleTask ''1'' ''dockerhub'' Error)
                 \<lparr>error := Some (HttpStatus 500), retryCount := Some 3, downloadedBytes := 2\<rparr>;
        s = exampleService [(''1'', task)]
    in activeTasks s ''1'' = Some task
       \<and> retryDownload (\<lambda>n. exampleRegistry) 0 ''1'' s
           = executeDownload (\<lambda>n. exampleRegistry) 0 ''1''
               (s\<lparr>activeTasks := (activeTasks s)(''1'' \<mapsto> retryReset (now s) task)\<rparr>)
       \<and> retryCount (retryReset (now s) task) = Some 0
       \<and> error (retryReset (now s) task) = Some (HttpStatus 500)
       \<and> downloadedBytes (retryReset (now s) task) = 2)"
proof -
  let ?task = "(exampleTask ''1'' ''dockerhub'' Error)
                 \<lparr>error := Some (HttpStatus 500), retryCount := Some 3, downloadedBytes := 2\<rparr>"
  let ?s = "exampleService [(''1'', ?task)]"
  have a: "activeTasks ?s ''1'' = Some ?task"
    by (simp add: exampleService_def)
  from retryDownload_resets_counter_keeps_error [OF a, of "\<lambda>n. exampleRegistry" 0] a
  show ?thesis
    by (simp add: Let_def exampleTask_def)
qed

text \<open>
  C4 as stated fails: a task that failed with an error keeps that error through
  the retry, in the record the retry starts from and still when the retried download has
  completed.
\<close>

theorem retryDownload_keeps_error_counterexample:
  "(let task = (exampleTask ''1'' ''dockerhub'' Error)
                 \<lparr>error := Some (HttpStatus 500), retryCount := Some 3, downloadedBytes := 2\<rparr>;
        s = exampleService [(''1'', task)];
        s' = retryDownload (\<lambda>n. exampleRegistry) 0 ''1'' s
    in error (retryReset (now s) task) = Some (HttpStatus 500)
       \<and> map_option status (activeTasks s' ''1'') = Some Completed
       \<and> map_option error (activeTasks s' ''1'') = Some (Some (HttpStatus 500)))"
  by (simp add: retryDownload_def retryReset_def
        executeDownload.simps exampleService_def exampleTask_def
        exampleRegistry_def exampleManifest_def attempt_def updateTaskStatus_def emit_def
        resolveManifest_def normalizeDockerRepo_def getDockerToken_def getDockerManifestInfo_def
        orElse_def selectedDigest_def modifyTask_def sumLayerSizes_def layerSize_def path_join_def
        safe_def downloadDockerBlob_def onData_def updateTaskProgress_def appendFile_def
        writeFile_def verifyFile_def Let_def)

section \<open>Failures of the manifest resolution\<close>

lemma resolveManifest_cong:
  "source t' = source t \<Longrightarrow> imageName t' = imageName t \<Longrightarrow> tag t' = tag t
   \<Longrightarrow> resolveManifest reg t' = resolveManifest reg t"
  by (simp add: resolveManifest_def Let_def cong: sum.case_cong)

lemma attempt_unresolved:
  "resolveManifest reg task = Inl e
   \<Longrightarrow> attempt reg taskId task s = (Some e, updateTaskStatus taskId Downloading None s)"
  by (simp add: attempt_def Let_def)

lemma failed_attempt_state:
  assumes "activeTasks s taskId = Some t"
  shows "activeTasks (updateTaskStatus taskId Error (Some e) (updateTaskStatus taskId Downloading None s)) taskId
           = Some (t\<lparr>status := Error, updatedAt := now s, error := Some e\<rparr>)"
    and "errorEvents (updateTaskStatus taskId Error (Some e) (updateTaskStatus taskId Downloading None s))
           = Suc (errorEvents s)"
    and "retryCountOf (updateTaskStatus taskId Error (Some e) (updateTaskStatus taskId Downloading None s)) taskId
           = retryCountOf s taskId"
  using assms
  by (simp_all add: updateTaskStatus_def emit_def Let_def errorEvents_def retryCountOf_def)

lemma executeDownload_unresolved:
  assumes fails: "\<And>m. resolveManifest (w m) task = Inl e"
  shows "activeTasks s taskId = Some t \<Longrightarrow> source t = source task \<Longrightarrow> imageName t = imageName task
         \<Longrightarrow> tag t = tag task \<Longrightarrow> retryCountOf s taskId = rc \<Longrightarrow> rc \<le> retryAttempts
         \<Longrightarrow> k = retryAttempts - rc
         \<Longrightarrow> (\<exists>t'. activeTasks (executeDownload w n taskId s) taskId = Some t'
                  \<and> source t' = source task \<and> status t' = Error \<and> error t' = Some e
                  \<and> retryCountOf (executeDownload w n taskId s) taskId = retryAttempts)
             \<and> errorEvents (executeDownload w n taskId s) = errorEvents s + Suc k"
proof (induction k arbitrary: s t rc n)
  case 0
  let ?s2 = "updateTaskStatus taskId Error (Some e) (updateTaskStatus taskId Downloading None s)"
  have r: "resolveManifest (w n) t = Inl e"
    using fails [of n] resolveManifest_cong [of t task "w n"] 0 by simp
  have rc: "retryCountOf ?s2 taskId = retryAttempts"
    using failed_attempt_state(3) [OF 0(1), of e] 0 by simp
  have "executeDownload w n taskId s = ?s2"
    using 0(1) attempt_unresolved [OF r, of taskId s] rc
    by (simp add: executeDownload.simps [of w n taskId s] Let_def)
  with failed_attempt_state [OF 0(1), of e] 0 rc show ?case by simp
next
  case (Suc k)
  let ?s2 = "updateTaskStatus taskId Error (Some e) (updateTaskStatus taskId Downloading None s)"
  let ?s3 = "delay retryDelay (modifyTask taskId (\<lambda>t. t\<lparr>retryCount := Some (rc + 1)\<rparr>) ?s2)"
  let ?t3 = "t\<lparr>status := Error, updatedAt := now s, error := Some e, retryCount := Some (rc + 1)\<rparr>"
  have r: "resolveManifest (w n) t = Inl e"
    using fails [of n] resolveManifest_cong [of t task "w n"] Suc.prems by simp
  have rc: "retryCountOf ?s2 taskId = rc" "rc < retryAttempts"
    using failed_attempt_state(3) [OF Suc.prems(1), of e] Suc.prems by simp_all
  have unfold: "executeDownload w n taskId s = executeDownload w (Suc n) taskId ?s3"
    using Suc.prems(1) attempt_unresolved [OF r, of taskId s] rc
    by (simp add: executeDownload.simps [of w n taskId s] Let_def)
  have t3: "activeTasks ?s3 taskId = Some ?t3"
    using failed_attempt_state(1) [OF Suc.prems(1), of e]
    by (simp add: delay_def modifyTask_def)
  have rc3: "retryCountOf ?s3 taskId = rc + 1"
    using t3 by (simp add: retryCountOf_def)
  have ev3: "errorEvents ?s3 = Suc (errorEvents s)"
    using failed_attempt_state(2) [OF Suc.prems(1), of e]
    by (simp add: delay_def modifyTask_def errorEvents_def split: option.splits)
  have "(\<exists>t'. activeTasks (executeDownload w (Suc n) taskId ?s3) taskId = Some t'
                  \<and> source t' = source task \<and> status t' = Error \<and> error t' = Some e
                  \<and> retryCountOf (executeDownload w (Suc n) taskId ?s3) taskId = retryAttempts)
             \<and> errorEvents (executeDownload w (Suc n) taskId ?s3) = errorEvents ?s3 + Suc k"
  proof (rule Suc.IH [OF t3 _ _ _ rc3])
    show "source ?t3 = source task" using Suc.prems by simp
    show "imageName ?t3 = imageName task" using Suc.prems by simp
    show "tag ?t3 = tag task" using Suc.prems by simp
    show "rc + 1 \<le> retryAttempts" using rc by simp
    show "k = retryAttempts - (rc + 1)" using Suc.prems by simp
  qed
  with unfold ev3 show ?case by simp
qed

lemma resolution_failure_kind_lemma:
  assumes present: "activeTasks s taskId = Some task"
    and budget: "retryCountOf s taskId \<le> retryAttempts"
    and fails: "\<forall>m. resolveManifest (w m) task = Inl e"
  shows "(\<exists>t'. activeTasks (executeDownload w n taskId s) taskId = Some t'
              \<and> status t' = Error \<and> error t' = Some e \<and> retryCount t' = Some 3)
         \<and> errorEvents (executeDownload w n taskId s)
             = errorEvents s + (retryAttempts - retryCountOf s taskId) + 1"
proof -
  have f: "\<And>m. resolveManifest (w m) task = Inl e"
    using fails by simp
  from executeDownload_unresolved [where w = w and task = task and e = e and n = n, OF f present refl refl refl refl budget refl]
  obtain t' where t': "activeTasks (executeDownload w n taskId s) taskId = Some t'"
      "status t' = Error" "error t' = Some e"
      "retryCountOf (executeDownload w n taskId s) taskId = retryAttempts"
    and ev: "errorEvents (executeDownload w n taskId s)
             = errorEvents s + Suc (retryAttempts - retryCountOf s taskId)"
    by blast
  from t'(1,4) have "retryCount t' = Some 3"
    by (simp add: retryCountOf_def retryAttempts_def split: option.splits)
  with t' ev show ?thesis by simp
qed

text \<open>
  C7 (as amended). A failure of the manifest resolution is retried whatever its kind, a
  404 included: each failed attempt sets the status to error and emits
  \<^verbatim>\<open>downloadError\<close>, and while the retry counter is below the budget of 3 the counter is
  incremented and the download is run again. A task whose resolution fails with \<open>e\<close> at
  every attempt ends in status error with error \<open>e\<close> and with the whole budget consumed.
\<close>

theorem resolution_failure_retried_whatever_kind:
  assumes present: "activeTasks s taskId = Some task"
    and budget: "retryCountOf s taskId \<le> retryAttempts"
    and fails: "\<forall>m. resolveManifest (w m) task = Inl e"
  shows "(\<exists>t'. activeTasks (executeDownload w n taskId s) taskId = Some t'
              \<and> status t' = Error \<and> error t' = Some e \<and> retryCount t' = Some 3)
         \<and> errorEvents (executeDownload w n taskId s)
             = errorEvents s + (retryAttempts - retryCountOf s taskId) + 1"
  using present budget fails by (rule resolution_failure_kind_lemma)

theorem resolution_failure_retried_whatever_kind_witness:
  "(let task = exampleTask ''1'' ''dockerhub'' Pending;
        s = exampleService [(''1'', task)];
        s' = executeDownload (\<lambda>m. notFoundRegistry) 0 ''1'' s
    in activeTasks s ''1'' = Some task
       \<and> retryCountOf s ''1'' = 0
       \<and> resolveManifest notFoundRegistry task = Inl (HttpStatus 404)
       \<and> (\<exists>t'. activeTasks s' ''1'' = Some t' \<and> status t' = Error
                \<and> error t' = Some (HttpStatus 404) \<and> retryCount t' = Some 3)
       \<and> errorEvents s' = 4)"
proof -
  let ?task = "exampleTask ''1'' ''dockerhub'' Pending"
  let ?s = "exampleService [(''1'', ?task)]"
  have a: "activeTasks ?s ''1'' = Some ?task"
    by (simp add: exampleService_def)
  have b: "retryCountOf ?s ''1'' = 0"
    by (simp add: retryCountOf_def exampleService_def exampleTask_def)
  have c: "resolveManifest notFoundRegistry ?task = Inl (HttpStatus 404)"
    by (simp add: resolveManifest_def notFoundRegistry_def exampleRegistry_def exampleTask_def
                  getDockerToken_def getDockerManifestInfo_def Let_def)
  have d: "errorEvents ?s = 0"
    by (simp add: errorEvents_def exampleService_def)
  from resolution_failure_retried_whatever_kind
         [of ?s "''1''" ?task "\<lambda>m. notFoundRegistry" "HttpStatus 404" 0] a b c d
  show ?thesis by (simp add: Let_def retryAttempts_def)
qed

text \<open>
  C7 as stated fails: with a registry that answers 404 to the manifest request the
  task is not failed at once; the download is run four times, the three retries are
  consumed and 15 seconds of retry delay pass.
\<close>

theorem not_found_consumes_retries_counterexample:
  "(let s = exampleService [(''1'', exampleTask ''1'' ''dockerhub'' Pending)];
        s' = executeDownload (\<lambda>m. notFoundRegistry) 0 ''1'' s
    in map_option status (activeTasks s' ''1'') = Some Error
       \<and> map_option error (activeTasks s' ''1'') = Some (Some (HttpStatus 404))
       \<and> map_option retryCount (activeTasks s' ''1'') = Some (Some 3)
       \<and> errorEvents s' = 4
       \<and> now s' = now s + 15000)"
  by (simp add: executeDownload.simps exampleService_def exampleTask_def notFoundRegistry_def
        exampleRegistry_def attempt_def updateTaskStatus_def emit_def resolveManifest_def
        normalizeDockerRepo_def getDockerToken_def getDockerManifestInfo_def modifyTask_def
        retryCountOf_def retryAttempts_def retryDelay_def delay_def errorEvents_def Let_def)

section \<open>Creating a task for an unknown source\<close>

text \<open>
  C6 (as amended). A create request with its three required fields and a source other
  than \<^verbatim>\<open>dockerhub\<close> and \<^verbatim>\<open>aliyun\<close> is answered with 200 and the new task, and the task is
  stored. The source is rejected only inside the run of the download: each attempt fails
  with the unsupported-source error, the failure is retried like any other, and the task
  ends in status error with that error and the three retries consumed.
\<close>

theorem unknown_source_task_created_then_fails:
  assumes fields: "name \<noteq> []" "tg \<noteq> []" "src \<noteq> []"
    and unknown: "src \<noteq> ''dockerhub''" "src \<noteq> ''aliyun''"
  shows "\<exists>s'. postDownload w n (Some name) (Some tg) (Some src) target s
               = ((200, TaskRef (toString (now s))), s')
            \<and> (\<exists>t'. activeTasks s' (toString (now s)) = Some t'
                  \<and> status t' = Error \<and> error t' = Some (UnsupportedSource src)
                  \<and> retryCount t' = Some 3)
            \<and> errorEvents s' = errorEvents s + 4"
proof -
  let ?id = "toString (now s)"
  let ?task = "\<lparr>id' = ?id, imageName = name, tag = tg, source = src, status = Pending,
                  progress = 0, speed = 0, totalBytes = 0, downloadedBytes = 0,
                  targetPath = orElse target (path_join (path_join (downloadsRoot s) ''tasks'') ?id),
                  createdAt = now s, updatedAt = now s,
                  error = None, retryCount = None, downloadedSize = None\<rparr>"
  let ?s1 = "emit (TaskCreated ?task) (s\<lparr>activeTasks := (activeTasks s)(?id \<mapsto> ?task)\<rparr>)"
  let ?s' = "executeDownload w n ?id ?s1"
  have post: "postDownload w n (Some name) (Some tg) (Some src) target s = ((200, TaskRef ?id), ?s')"
    using fields by (simp add: postDownload_def startDownload_def orElse_def Let_def)
  have present: "activeTasks ?s1 ?id = Some ?task"
    by (simp add: emit_def)
  have rc: "retryCountOf ?s1 ?id = 0"
    by (simp add: retryCountOf_def emit_def)
  have fails: "\<forall>m. resolveManifest (w m) ?task = Inl (UnsupportedSource src)"
    using unknown by (simp add: resolveManifest_def)
  have ev: "errorEvents ?s1 = errorEvents s"
    by (simp add: errorEvents_def emit_def)
  have "(\<exists>t'. activeTasks ?s' ?id = Some t'
              \<and> status t' = Error \<and> error t' = Some (UnsupportedSource src) \<and> retryCount t' = Some 3)
         \<and> errorEvents ?s' = errorEvents ?s1 + (retryAttempts - retryCountOf ?s1 ?id) + 1"
    by (rule resolution_failure_kind_lemma [OF present _ fails]) (simp add: rc)
  with post ev rc show ?thesis
    by (simp add: retryAttempts_def)
qed

theorem unknown_source_task_created_then_fails_witness:
  "(let s = exampleService [];
        r = postDownload (\<lambda>m. exampleRegistry) 0 (Some ''nginx'') (Some ''latest'') (Some ''nosuch'') None s
    in fst r = (200, TaskRef ''1000'')
       \<and> (\<exists>t'. activeTasks (snd r) ''1000'' = Some t'
              \<and> status t' = Error \<and> error t' = Some (UnsupportedSource ''nosuch'')
              \<and> retryCount t' = Some 3)
       \<and> errorEvents (snd r) = 4)"
proof -
  have id: "toString (now (exampleService [])) = ''1000''"
    by (simp add: exampleService_def toString.simps digitChar_def)
  have ev: "errorEvents (exampleService []) = 0"
    by (simp add: errorEvents_def exampleService_def)
  from unknown_source_task_created_then_fails
         [of "''nginx''" "''latest''" "''nosuch''" "\<lambda>m. exampleRegistry" 0 None "exampleService []"]
  show ?thesis
    by (auto simp: id ev Let_def)
qed

text \<open>
  C6 as stated fails: for the unknown source \<open>nosuch\<close> the create route answers
  200 with a task, the task is in the store, and its failure was retried three times.
\<close>

theorem unknown_source_accepted_counterexample:
  "(let s = exampleService [];
        r = postDownload (\<lambda>m. exampleRegistry) 0 (Some ''nginx'') (Some ''latest'') (Some ''nosuch'') None s
    in fst r = (200, TaskRef ''1000'')
       \<and> activeTasks s ''1000'' = None
       \<and> map_option source (activeTasks (snd r) ''1000'') = Some ''nosuch''
       \<and> map_option status (activeTasks (snd r) ''1000'') = Some Error
       \<and> map_option retryCount (activeTasks (snd r) ''1000'') = Some (Some 3))"
  by (simp add: postDownload_def startDownload_def orElse_def toString.simps digitChar_def
        executeDownload.simps exampleService_def path_join_def
        attempt_def updateTaskStatus_def emit_def resolveManifest_def modifyTask_def
        retryCountOf_def retryAttempts_def retryDelay_def delay_def Let_def)

section \<open>Completion and the content of the blob files\<close>

lemma onData_keeps:
  "activeTasks s taskId = Some t
   \<Longrightarrow> (\<exists>t'. activeTasks (onData taskId expected chunk s) taskId = Some t')
       \<and> files (onData taskId expected chunk s) = files s
       \<and> taskControllers (onData taskId expected chunk s) = taskControllers s"
  by (simp add: onData_def updateTaskProgress_def emit_def Let_def)

lemma consumeStream_clean:
  "activeTasks s taskId = Some t \<Longrightarrow> files s outPath = Some (Bytes b)
   \<Longrightarrow> \<exists>s' t'. consumeStream taskId outPath expected Finish (map Data chunks) d s
                 = (None, d + int (length (concat chunks)), s')
              \<and> activeTasks s' taskId = Some t'
              \<and> files s' outPath = Some (Bytes (b @ concat chunks))"
proof (induction chunks arbitrary: s t b d)
  case Nil
  then show ?case by simp
next
  case (Cons chunk chunks)
  let ?s1 = "appendFile outPath chunk (onData taskId expected chunk s)"
  from onData_keeps [OF Cons.prems(1), of expected chunk]
  obtain t1 where t1: "activeTasks (onData taskId expected chunk s) taskId = Some t1"
    and f1: "files (onData taskId expected chunk s) = files s"
    by blast
  have p1: "activeTasks ?s1 taskId = Some t1"
    using t1 by (simp add: appendFile_def)
  have q1: "files ?s1 outPath = Some (Bytes (b @ chunk))"
    using f1 Cons.prems(2) by (simp add: appendFile_def)
  from Cons.IH [OF p1 q1, of "d + int (length chunk)"]
  show ?case by (simp add: add.assoc)
qed

lemma downloadDockerBlob_clean:
  assumes present: "activeTasks s taskId = Some t"
    and stream: "blob_at reg repo dg = Inr (map Data chunks, Finish)"
  shows "\<exists>s' t'. downloadDockerBlob reg taskId repo dg tok outPath expected s = (None, s')
           \<and> activeTasks s' taskId = Some t'
           \<and> files s' outPath = Some (Bytes (concat chunks))"
proof -
  let ?s1 = "s\<lparr>taskControllers := insert taskId (taskControllers s),
               files := (files s)(outPath \<mapsto> Bytes [])\<rparr>"
  have p: "activeTasks ?s1 taskId = Some t" using present by simp
  have q: "files ?s1 outPath = Some (Bytes [])" by simp
  from consumeStream_clean [OF p q, of expected chunks 0]
  obtain s2 t2 where c: "consumeStream taskId outPath expected Finish (map Data chunks) 0 ?s1
                           = (None, int (length (concat chunks)), s2)"
    and t2: "activeTasks s2 taskId = Some t2"
    and f2: "files s2 outPath = Some (Bytes (concat chunks))"
    by auto
  from stream c t2 f2 show ?thesis
    by (simp add: downloadDockerBlob_def Let_def)
qed

lemma downloadLayers_clean:
  "servesCleanly reg task ls \<Longrightarrow> activeTasks s taskId = Some t
   \<Longrightarrow> \<exists>s' t'. downloadLayers reg taskId task blobsDir ls s = (None, s')
              \<and> activeTasks s' taskId = Some t'"
proof (induction ls arbitrary: s t)
  case Nil
  then show ?case by simp
next
  case (Cons layer rest)
  from Cons.prems(1) obtain dg chunks where dg: "digest layer = Some dg"
    and stream: "blob_at reg (repoOf task) dg = Inr (map Data chunks, Finish)"
    by (auto simp: servesCleanly_def)
  have rest: "servesCleanly reg task rest"
    using Cons.prems(1) by (simp add: servesCleanly_def)
  let ?p = "path_join blobsDir (safe dg)"
  consider (hub) "source task = ''dockerhub''"
    | (ali) "source task \<noteq> ''dockerhub''" "source task = ''aliyun''"
    | (other) "source task \<noteq> ''dockerhub''" "source task \<noteq> ''aliyun''"
    by blast
  then show ?case
  proof cases
    case hub
    from Cons.prems(1) hub obtain tok where tok: "getDockerToken reg (repoOf task) = Inr tok"
      by (auto simp: servesCleanly_def getDockerToken_def)
    from downloadDockerBlob_clean [OF Cons.prems(2) stream, of tok ?p "layerSize layer"]
    obtain s1 t1 where b: "downloadDockerBlob reg taskId (repoOf task) dg tok ?p (layerSize layer) s = (None, s1)"
      and t1: "activeTasks s1 taskId = Some t1"
      by blast
    from Cons.IH [OF rest t1] dg hub tok b show ?thesis
      by (simp add: Let_def repoOf_def)
  next
    case ali
    from downloadDockerBlob_clean [OF Cons.prems(2) stream, of "[]" ?p "layerSize layer"]
    obtain s1 t1 where b: "downloadDockerBlob reg taskId (repoOf task) dg [] ?p (layerSize layer) s = (None, s1)"
      and t1: "activeTasks s1 taskId = Some t1"
      by blast
    have g: "downloadGenericBlob reg taskId (imageName task) dg ?p (layerSize layer) s = (None, s1)"
      using b ali by (simp add: downloadGenericBlob_eq [where tok = "[]"] repoOf_def)
    from Cons.IH [OF rest t1] dg ali g show ?thesis
      by (simp add: Let_def)
  next
    case other
    from Cons.IH [OF rest Cons.prems(2)] dg other show ?thesis
      by (simp add: Let_def)
  qed
qed

lemma updateTaskStatus_status:
  "activeTasks s taskId = Some t
   \<Longrightarrow> map_option status (activeTasks (updateTaskStatus taskId st None s) taskId) = Some st"
  by (auto simp: updateTaskStatus_def emit_def Let_def split: DownloadStatus.splits)

text \<open>
  C1 (as amended). No digest is computed: \<^verbatim>\<open>verifyFile\<close> changes and checks nothing, and
  a blob download whose stream ends cleanly succeeds with the file holding exactly the
  streamed bytes. So a task completes whenever its manifest resolves and every blob
  stream ends cleanly, whatever bytes the streams carry and whatever the digests are.
\<close>

theorem completes_whatever_the_bytes:
  assumes present: "activeTasks s taskId = Some task"
    and resolved: "resolveManifest reg task = Inr info"
    and clean: "servesCleanly reg task (layerList info)"
  shows "verifyFile task s = s
       \<and> (\<forall>repo dg tok outPath expected chunks.
             blob_at reg repo dg = Inr (map Data chunks, Finish) \<longrightarrow>
             (\<exists>s'. downloadDockerBlob reg taskId repo dg tok outPath expected s = (None, s')
                   \<and> files s' outPath = Some (Bytes (concat chunks))))
       \<and> (\<exists>s'. attempt reg taskId task s = (None, s')
                \<and> map_option status (activeTasks s' taskId) = Some Completed
                \<and> executeDownload (\<lambda>m. reg) n taskId s = s')"
proof -
  have blob: "\<exists>s'. downloadDockerBlob reg taskId repo dg tok outPath expected s = (None, s')
                   \<and> files s' outPath = Some (Bytes (concat chunks))"
    if "blob_at reg repo dg = Inr (map Data chunks, Finish)"
    for repo dg tok outPath expected chunks
    using downloadDockerBlob_clean [OF present that, of tok outPath expected] by blast
  let ?s1 = "updateTaskStatus taskId Downloading None s"
  let ?s2 = "modifyTask taskId (\<lambda>t. t\<lparr>totalBytes := sumLayerSizes (layerList info)\<rparr>) ?s1"
  let ?dir = "path_join (targetPath task) ''blobs''"
  obtain t1 where t1: "activeTasks ?s1 taskId = Some t1"
    using updateTaskStatus_present [OF present] by blast
  have t2: "activeTasks ?s2 taskId = Some (t1\<lparr>totalBytes := sumLayerSizes (layerList info)\<rparr>)"
    using t1 by (simp add: modifyTask_def)
  from downloadLayers_clean [OF clean t2, of ?dir]
  obtain s3 t3 where d: "downloadLayers reg taskId task ?dir (layerList info) ?s2 = (None, s3)"
    and t3: "activeTasks s3 taskId = Some t3"
    by blast
  let ?s5 = "writeFile (path_join (targetPath task) ''config.json'') (ConfigJson (configData info))
               (writeFile (path_join (targetPath task) ''manifest.json'') (ManifestJson (manifest info)) s3)"
  let ?s' = "updateTaskStatus taskId Completed None ?s5"
  have t5: "activeTasks ?s5 taskId = Some t3"
    using t3 by (simp add: writeFile_def)
  have a: "attempt reg taskId task s = (None, ?s')"
    using resolved d by (simp add: attempt_def Let_def verifyFile_def)
  have st: "map_option status (activeTasks ?s' taskId) = Some Completed"
    by (rule updateTaskStatus_status [OF t5])
  have run: "executeDownload (\<lambda>m. reg) n taskId s = ?s'"
    using present a by (simp add: executeDownload.simps [of _ n taskId s])
  from blob a st run show ?thesis
    by (simp add: verifyFile_def)
qed

theorem completes_whatever_the_bytes_witness:
  "(let task = exampleTask ''1'' ''dockerhub'' Pending;
        s = exampleService [(''1'', task)];
        info = \<lparr>manifest = exampleManifest, configData = ''{}'',
                layerList = [\<lparr>digest = Some ''sha256:aa'', size' = Some 2, platform = None\<rparr>,
                             \<lparr>digest = Some ''sha256:bb'', size' = Some 2, platform = None\<rparr>]\<rparr>
    in activeTasks s ''1'' = Some task
       \<and> resolveManifest exampleRegistry task = Inr info
       \<and> servesCleanly exampleRegistry task (layerList info)
       \<and> map_option status (activeTasks (executeDownload (\<lambda>m. exampleRegistry) 0 ''1'' s) ''1'')
           = Some Completed)"
proof -
  let ?task = "exampleTask ''1'' ''dockerhub'' Pending"
  let ?s = "exampleService [(''1'', ?task)]"
  let ?info = "\<lparr>manifest = exampleManifest, configData = ''{}'',
                layerList = [\<lparr>digest = Some ''sha256:aa'', size' = Some 2, platform = None\<rparr>,
                             \<lparr>digest = Some ''sha256:bb'', size' = Some 2, platform = None\<rparr>]\<rparr>"
  have a: "activeTasks ?s ''1'' = Some ?task"
    by (simp add: exampleService_def)
  have b: "resolveManifest exampleRegistry ?task = Inr ?info"
    by (simp add: resolveManifest_def exampleTask_def exampleRegistry_def exampleManifest_def
                  normalizeDockerRepo_def getDockerToken_def getDockerManifestInfo_def
                  orElse_def selectedDigest_def Let_def)
  have m: "map Data [[1, 2 :: byte]] = [Data [1, 2]]"
    by simp
  have c: "servesCleanly exampleRegistry ?task (layerList ?info)"
    unfolding servesCleanly_def
    by (auto simp: exampleRegistry_def intro!: exI [of _ "[[1, 2]]"])
  from completes_whatever_the_bytes [OF a b c, of 0] a b c
  show ?thesis by (auto simp: Let_def)
qed

text \<open>
  C1 as stated fails, whatever function \<open>H\<close> computes the digest of a file: the
  example registry serves the same two bytes for the layer with digest \<open>sha256:aa\<close> and
  for the layer with digest \<open>sha256:bb\<close>. The task completes with both files on disk,
  and the digest of their common content cannot equal both.
\<close>

theorem completes_with_mismatched_blob_counterexample:
  "\<forall>H :: byte list \<Rightarrow> string.
     (let s' = executeDownload (\<lambda>m. exampleRegistry) 0 ''1''
                 (exampleService [(''1'', exampleTask ''1'' ''dockerhub'' Pending)])
      in map_option status (activeTasks s' ''1'') = Some Completed
         \<and> files s' ''downloads/tasks/1/blobs/sha256_aa'' = Some (Bytes [1, 2])
         \<and> files s' ''downloads/tasks/1/blobs/sha256_bb'' = Some (Bytes [1, 2])
         \<and> \<not> (H [1, 2] = ''sha256:aa'' \<and> H [1, 2] = ''sha256:bb''))"
proof -
  let ?s' = "executeDownload (\<lambda>m. exampleRegistry) 0 ''1''
                 (exampleService [(''1'', exampleTask ''1'' ''dockerhub'' Pending)])"
  have run: "map_option status (activeTasks ?s' ''1'') = Some Completed
         \<and> files ?s' ''downloads/tasks/1/blobs/sha256_aa'' = Some (Bytes [1, 2])
         \<and> files ?s' ''downloads/tasks/1/blobs/sha256_bb'' = Some (Bytes [1, 2])"
    by (simp add: executeDownload.simps exampleService_def exampleTask_def
        exampleRegistry_def exampleManifest_def attempt_def updateTaskStatus_def emit_def
        resolveManifest_def normalizeDockerRepo_def getDockerToken_def getDockerManifestInfo_def
        orElse_def selectedDigest_def modifyTask_def sumLayerSizes_def layerSize_def path_join_def
        safe_def downloadDockerBlob_def onData_def updateTaskProgress_def appendFile_def
        writeFile_def verifyFile_def Let_def)
  have "\<not> (H [1, 2] = ''sha256:aa'' \<and> H [1, 2] = ''sha256:bb'')" for H :: "byte list \<Rightarrow> string"
    by auto
  with run show ?thesis by (simp add: Let_def)
qed

section \<open>Pause while a blob is streaming\<close>

text \<open>
  C3. The pause takes effect (the task is paused and \<^verbatim>\<open>taskPaused\<close> is emitted), but the
  abort of the stream is caught by \<^verbatim>\<open>executeDownload\<close> as a failure: the task is set to
  error and, the retry budget not being used up, downloaded again after the retry delay.
  The retry emits \<^verbatim>\<open>downloadProgress\<close> twice and completes the task, with no resume.
\<close>

theorem pause_is_followed_by_progress_without_resume:
  "(let s = exampleService [(''1'', exampleTask ''1'' ''dockerhub'' Pending)];
        s' = executeDownload pauseWorld 0 ''1'' s
    in map (\<lambda>e. (eventName e, status (eventTask e))) (events s')
         = [(''taskUpdated'', Downloading), (''downloadProgress'', Downloading),
            (''taskPaused'', Paused),
            (''taskUpdated'', Error), (''downloadError'', Error),
            (''taskUpdated'', Downloading), (''downloadProgress'', Downloading),
            (''downloadProgress'', Downloading),
            (''taskUpdated'', Completed), (''downloadComplete'', Completed)]
       \<and> map_option error (activeTasks s' ''1'') = Some (Some Canceled)
       \<and> map_option retryCount (activeTasks s' ''1'') = Some (Some 1)
       \<and> now s' = now s + retryDelay)"
  by (simp add: pauseWorld_def pausedRegistry_def pauseDownload_def retryCountOf_def
        retryAttempts_def retryDelay_def delay_def
        executeDownload.simps exampleService_def exampleTask_def
        exampleRegistry_def exampleManifest_def attempt_def updateTaskStatus_def emit_def
        resolveManifest_def normalizeDockerRepo_def getDockerToken_def getDockerManifestInfo_def
        orElse_def selectedDigest_def modifyTask_def sumLayerSizes_def layerSize_def path_join_def
        safe_def downloadDockerBlob_def onData_def updateTaskProgress_def appendFile_def
        writeFile_def verifyFile_def Let_def)

section \<open>Control verbs: accepted, rejected, repeated\<close>













end
